theory Spec2Isabelle
  imports Complex_Main
begin

section \<open>The restaurant pipeline: bronze, silver and gold flows\<close>

text \<open>
  A shallow embedding of \<^verbatim>\<open>pipeline/flows/bronze_flow.py\<close>,
  \<^verbatim>\<open>silver_flow.py\<close>, \<^verbatim>\<open>gold_flow.py\<close> and the driver
  \<^verbatim>\<open>run_pipeline.py\<close>. Python strings are lists of characters whose code
  points are below 256; a data frame is its list of named columns together with its
  number of rows; files are the frames written to them; an exception is the \<open>Inl\<close>
  branch of a sum.
\<close>

subsection \<open>Field-name normalization (\<^verbatim>\<open>_to_snake\<close>)\<close>

text \<open>
  The character classes of the regular expressions: \<^verbatim>\<open>[A-Z]\<close>,
  \<^verbatim>\<open>[a-z]\<close>, \<^verbatim>\<open>[0-9]\<close>, \<^verbatim>\<open>[ \-]\<close>, the underscore, and
  \<^verbatim>\<open>.\<close>, which matches every character but the line feed.
\<close>

definition is_upper :: "char \<Rightarrow> bool" where
  "is_upper c = (65 \<le> (of_char c :: nat) \<and> (of_char c :: nat) \<le> 90)"

definition is_lower :: "char \<Rightarrow> bool" where
  "is_lower c = (97 \<le> (of_char c :: nat) \<and> (of_char c :: nat) \<le> 122)"

definition is_digit :: "char \<Rightarrow> bool" where
  "is_digit c = (48 \<le> (of_char c :: nat) \<and> (of_char c :: nat) \<le> 57)"

definition is_sep :: "char \<Rightarrow> bool" where
  "is_sep c = (c = CHR '' '' \<or> c = CHR ''-'')"

definition is_us :: "char \<Rightarrow> bool" where
  "is_us c = (c = CHR ''_'')"

definition is_dot :: "char \<Rightarrow> bool" where
  "is_dot c = (c \<noteq> CHR 0x0A)"

text \<open>
  \<^verbatim>\<open>re.sub(r"[ \-]+", "_", s)\<close>: every maximal run of spaces and hyphens
  becomes one underscore.
\<close>

function sub_seps :: "string \<Rightarrow> string" where
  "sub_seps [] = []"
| "sub_seps (c # cs) =
     (if is_sep c then CHR ''_'' # sub_seps (dropWhile is_sep cs) else c # sub_seps cs)"
  by pat_completeness auto
termination
  by (relation "measure length") (auto simp: length_dropWhile_le less_Suc_eq_le)

text \<open>
  \<^verbatim>\<open>re.sub(r"(.)([A-Z][a-z]+)", r"\1_\2", s)\<close>: scanning from the left, a
  character followed by an upper-case letter and at least one lower-case letter gets an
  underscore after it; the match takes the whole run of lower-case letters and the scan
  goes on behind it.
\<close>

function sub_word :: "string \<Rightarrow> string" where
  "sub_word [] = []"
| "sub_word [c] = [c]"
| "sub_word [c, u] = [c, u]"
| "sub_word (c # u # l # cs) =
     (if is_dot c \<and> is_upper u \<and> is_lower l
      then c # CHR ''_'' # u # l # takeWhile is_lower cs @ sub_word (dropWhile is_lower cs)
      else c # sub_word (u # l # cs))"
  by pat_completeness auto
termination
  by (relation "measure length") (auto simp: length_dropWhile_le less_Suc_eq_le le_SucI)

text \<open>
  \<^verbatim>\<open>re.sub(r"([a-z0-9])([A-Z])", r"\1_\2", s)\<close>: a lower-case letter or digit
  followed by an upper-case letter; the match takes both characters.
\<close>

fun sub_hump :: "string \<Rightarrow> string" where
  "sub_hump [] = []"
| "sub_hump [c] = [c]"
| "sub_hump (c # u # cs) =
     (if (is_lower c \<or> is_digit c) \<and> is_upper u
      then c # CHR ''_'' # u # sub_hump cs
      else c # sub_hump (u # cs))"

text \<open>
  \<^verbatim>\<open>re.sub(r"__+", "_", s)\<close>: a run of two or more underscores becomes one.
\<close>

function sub_runs :: "string \<Rightarrow> string" where
  "sub_runs [] = []"
| "sub_runs [c] = [c]"
| "sub_runs (c # d # cs) =
     (if is_us c \<and> is_us d then CHR ''_'' # sub_runs (dropWhile is_us cs)
      else c # sub_runs (d # cs))"
  by pat_completeness auto
termination
  by (relation "measure length") (auto simp: length_dropWhile_le less_Suc_eq_le le_SucI)

text \<open>\<^verbatim>\<open>s.strip("_")\<close> and \<^verbatim>\<open>s.lower()\<close> (on code points below 256:
  the ASCII letters and the Latin-1 capitals, which lie 32 below their small letters).\<close>

definition strip_us :: "string \<Rightarrow> string" where
  "strip_us s = rev (dropWhile is_us (rev (dropWhile is_us s)))"

definition lower_char :: "char \<Rightarrow> char" where
  "lower_char c =
     (let n = (of_char c :: nat) in
      if (65 \<le> n \<and> n \<le> 90) \<or> (192 \<le> n \<and> n \<le> 222 \<and> n \<noteq> 215)
      then char_of (n + 32) else c)"

definition lower :: "string \<Rightarrow> string" where
  "lower s = map lower_char s"

text \<open>
  \<^verbatim>\<open>_to_snake\<close>. Its first line, \<^verbatim>\<open>s = s or ""\<close>, leaves every string as it
  is (the empty string is replaced by itself).
\<close>

definition to_snake :: "string \<Rightarrow> string" where
  "to_snake s = lower (strip_us (sub_runs (sub_hump (sub_word (sub_seps s)))))"

subsection \<open>Values and data frames\<close>

text \<open>
  A Python float is \<^verbatim>\<open>nan\<close> or a finite value; finite values are exact rationals here,
  so the rounding error of binary floating point and the two infinities are outside this
  model.
\<close>

datatype pyfloat = NaN | Fin rat

text \<open>
  The value of one cell: \<^verbatim>\<open>None\<close> or \<^verbatim>\<open>NaT\<close> (\<open>Null\<close>), a string, an
  integer, a float (the missing value of a float column is \<open>Float NaN\<close>), a UTC timestamp
  in nanoseconds since the epoch, or a JSON object.
\<close>

datatype cell = Null | Str string | Integer int | Float pyfloat | Time int | Dict "(string \<times> cell) list"

text \<open>\<^verbatim>\<open>pd.isna\<close> on one cell.\<close>

fun is_null :: "cell \<Rightarrow> bool" where
  "is_null Null = True"
| "is_null (Float NaN) = True"
| "is_null c = False"

text \<open>
  A \<^verbatim>\<open>DataFrame\<close>: the number of rows of its index and its columns in order, each a
  label with the values of the rows. Labels may repeat (normalization can map two headers
  to one name).
\<close>

record frame =
  nrows :: nat
  cols :: "(string \<times> cell list) list"

text \<open>The exceptions of pandas that the flows can meet.\<close>

datatype error = NoObjectsToConcatenate | InvalidIndexError | EmptyDataError

text \<open>\<^verbatim>\<open>pd.DataFrame()\<close>, \<^verbatim>\<open>df.columns\<close>, \<^verbatim>\<open>df.empty\<close> and
  \<^verbatim>\<open>name in df.columns\<close>.\<close>

definition empty_frame :: frame where
  "empty_frame = \<lparr>nrows = 0, cols = []\<rparr>"

definition columns :: "frame \<Rightarrow> string list" where
  "columns df = map fst (cols df)"

definition is_empty :: "frame \<Rightarrow> bool" where
  "is_empty df = (nrows df = 0 \<or> cols df = [])"

definition has_col :: "string \<Rightarrow> frame \<Rightarrow> bool" where
  "has_col name df = (name \<in> set (columns df))"

text \<open>
  \<^verbatim>\<open>df[name]\<close>, read where the flows have checked that the label exists (the first
  column of that label), and \<^verbatim>\<open>df[name] = values\<close>, which overwrites the columns of
  that label or appends a new last column.
\<close>

definition get_col :: "string \<Rightarrow> frame \<Rightarrow> cell list" where
  "get_col name df = (case map_of (cols df) name of Some vs \<Rightarrow> vs | None \<Rightarrow> [])"

definition set_col :: "string \<Rightarrow> cell list \<Rightarrow> frame \<Rightarrow> frame" where
  "set_col name vs df =
     (if has_col name df
      then df\<lparr>cols := map (\<lambda>(n, old). if n = name then (n, vs) else (n, old)) (cols df)\<rparr>
      else df\<lparr>cols := cols df @ [(name, vs)]\<rparr>)"

text \<open>\<^verbatim>\<open>normalize_df_columns\<close>: every label goes through \<^verbatim>\<open>_to_snake\<close>.\<close>

definition normalize_df_columns :: "frame \<Rightarrow> frame" where
  "normalize_df_columns df = df\<lparr>cols := map (\<lambda>(n, vs). (to_snake n, vs)) (cols df)\<rparr>"

text \<open>
  \<^verbatim>\<open>pd.concat(dfs, ignore_index=True, sort=False)\<close>. With no frame it raises. Frames
  that all carry the same labels are stacked column by column. Otherwise the labels of
  the result are those of the frames in order of first appearance, a frame lacking a
  label contributes nulls, and a frame with a repeated label cannot be reindexed: pandas
  raises \<^verbatim>\<open>InvalidIndexError\<close>.
\<close>

definition uniq :: "'a list \<Rightarrow> 'a list" where
  "uniq xs = rev (remdups (rev xs))"

definition stack :: "(string \<times> cell list) list \<Rightarrow> (string \<times> cell list) list \<Rightarrow> (string \<times> cell list) list" where
  "stack a b = map (\<lambda>((n, xs), (m, ys)). (n, xs @ ys)) (zip a b)"

definition column_or_null :: "frame \<Rightarrow> string \<Rightarrow> cell list" where
  "column_or_null df n =
     (case map_of (cols df) n of Some vs \<Rightarrow> vs | None \<Rightarrow> replicate (nrows df) Null)"

definition concat_frames :: "frame list \<Rightarrow> error + frame" where
  "concat_frames dfs =
     (if dfs = [] then Inl NoObjectsToConcatenate
      else if list_all (\<lambda>d. columns d = columns (hd dfs)) dfs
      then Inr \<lparr>nrows = sum_list (map nrows dfs),
                cols = foldl stack (cols (hd dfs)) (map cols (tl dfs))\<rparr>
      else if list_ex (\<lambda>d. \<not> distinct (columns d)) dfs then Inl InvalidIndexError
      else Inr \<lparr>nrows = sum_list (map nrows dfs),
                cols = map (\<lambda>n. (n, concat (map (\<lambda>d. column_or_null d n) dfs)))
                         (uniq (concat (map columns dfs)))\<rparr>)"

subsection \<open>Bronze flow\<close>

text \<open>
  A raw input file is absent (\<open>None\<close>), present but unreadable (the reader raises), or
  readable as a frame. The store holds the six candidate tables by file name, the event
  log, and the files the three flows write.
\<close>

datatype source = Unreadable | Readable frame

type_synonym agg_counts = "(cell \<times> nat) list"

type_synonym agg_means = "(cell \<times> pyfloat) list"

record gold_out =
  tickets_per_agent :: agg_counts
  tickets_by_status :: agg_counts
  tickets_by_sentiment :: agg_counts
  avg_response_time_per_agent :: agg_means
  gold_summary :: "(string \<times> cell \<times> cell) list"

record store =
  csv_files :: "string \<Rightarrow> source option"
  jsonl_file :: "source option"
  bronze_file :: "frame option"
  silver_file :: "frame option"
  gold_files :: "gold_out option"

definition csv_names :: "string list" where
  "csv_names = [''customers.csv'', ''orders.csv'', ''stores.csv'', ''products.csv'',
                ''items.csv'', ''supplies.csv'']"

text \<open>\<^verbatim>\<open>s.replace(old, new)\<close> for a non-empty \<open>old\<close>: the occurrences from the left,
  without overlap.\<close>

function str_replace :: "string \<Rightarrow> string \<Rightarrow> string \<Rightarrow> string" where
  "str_replace old new s =
     (if s = [] \<or> old = [] then s
      else if take (length old) s = old then new @ str_replace old new (drop (length old) s)
      else hd s # str_replace old new (tl s))"
  by pat_completeness auto
termination
  by (relation "measure (\<lambda>(old, new, s). length s)") auto

text \<open>
  The loop over the candidate names: a table that is present and readable is normalized
  and tagged with \<^verbatim>\<open>df["_src"] = fname.replace(".csv", "")\<close>; an absent or unreadable
  one is skipped.
\<close>

definition tag_src :: "string \<Rightarrow> frame \<Rightarrow> frame" where
  "tag_src fname df = set_col ''_src'' (replicate (nrows df) (Str (str_replace ''.csv'' '''' fname))) df"

fun read_csvs :: "(string \<Rightarrow> source option) \<Rightarrow> string list \<Rightarrow> frame list" where
  "read_csvs files [] = []"
| "read_csvs files (fname # rest) =
     (case files fname of
        Some (Readable df) \<Rightarrow> tag_src fname (normalize_df_columns df) # read_csvs files rest
      | Some Unreadable \<Rightarrow> read_csvs files rest
      | None \<Rightarrow> read_csvs files rest)"

text \<open>
  The event log: normalized; when it has a \<^verbatim>\<open>sentiment\<close> column, the column
  \<^verbatim>\<open>sentiment_score\<close> holds \<^verbatim>\<open>x.get("score")\<close> of each object and
  \<^verbatim>\<open>None\<close> for every other value. An absent log, or one on which the reader
  raises, gives \<^verbatim>\<open>pd.DataFrame()\<close>.
\<close>

definition score_of :: "cell \<Rightarrow> cell" where
  "score_of x =
     (case x of Dict d \<Rightarrow> (case map_of d ''score'' of Some v \<Rightarrow> v | None \<Rightarrow> Null)
      | _ \<Rightarrow> Null)"

definition flatten_sentiment :: "frame \<Rightarrow> frame" where
  "flatten_sentiment df =
     (if has_col ''sentiment'' df
      then set_col ''sentiment_score'' (map score_of (get_col ''sentiment'' df)) df
      else df)"

definition load_json :: "source option \<Rightarrow> frame" where
  "load_json jf =
     (case jf of
        Some (Readable df) \<Rightarrow> flatten_sentiment (normalize_df_columns df)
      | Some Unreadable \<Rightarrow> empty_frame
      | None \<Rightarrow> empty_frame)"

text \<open>The union of the combined tables with the log (the \<^verbatim>\<open>if\<close> chain on
  \<^verbatim>\<open>.empty\<close>).\<close>

definition union_frames :: "frame \<Rightarrow> frame \<Rightarrow> error + frame" where
  "union_frames df_csv_combined df_json =
     (if \<not> is_empty df_csv_combined \<and> \<not> is_empty df_json
      then concat_frames [df_csv_combined, df_json]
      else if \<not> is_empty df_csv_combined then Inr df_csv_combined
      else Inr df_json)"

text \<open>
  From the frames read to the bronze table: the tables are concatenated (an empty frame
  when there is none), united with the log, and the labels are normalized once more.
\<close>

definition bronze_combine :: "frame list \<Rightarrow> frame \<Rightarrow> error + frame" where
  "bronze_combine csv_dfs df_json =
     (case (if csv_dfs \<noteq> [] then concat_frames csv_dfs else Inr empty_frame) of
        Inl e \<Rightarrow> Inl e
      | Inr df_csv_combined \<Rightarrow>
          (case union_frames df_csv_combined df_json of
             Inl e \<Rightarrow> Inl e
           | Inr combined \<Rightarrow> Inr (normalize_df_columns combined)))"

definition bronze_table :: "(string \<Rightarrow> source option) \<Rightarrow> source option \<Rightarrow> error + frame" where
  "bronze_table files jf = bronze_combine (read_csvs files csv_names) (load_json jf)"

text \<open>\<^verbatim>\<open>bronze_flow\<close>: writes the bronze file and returns its path.\<close>

definition bronze_flow :: "store \<Rightarrow> error + store \<times> string option" where
  "bronze_flow st =
     (case bronze_table (csv_files st) (jsonl_file st) of
        Inl e \<Rightarrow> Inl e
      | Inr combined \<Rightarrow> Inr (st\<lparr>bronze_file := Some combined\<rparr>, Some ''data/bronze/bronze.csv''))"

subsection \<open>What the flows take from pandas and Python\<close>

text \<open>
  The parsers of the libraries are parameters of the flows: how a written file of at
  least one column is read back with \<^verbatim>\<open>dtype=str\<close> and with type inference, which
  timestamp \<^verbatim>\<open>pd.to_datetime(errors="coerce", utc=True)\<close> finds in a value (\<open>None\<close>
  for \<^verbatim>\<open>NaT\<close>), which number \<^verbatim>\<open>pd.to_numeric(errors="coerce")\<close> finds in a
  string, and what \<^verbatim>\<open>float\<close> makes of a string (\<open>None\<close> when it raises).
\<close>

record pandas =
  read_str :: "frame \<Rightarrow> frame"
  read_infer :: "frame \<Rightarrow> frame"
  to_ts :: "cell \<Rightarrow> int option"
  to_num :: "string \<Rightarrow> pyfloat"
  float_of_str :: "string \<Rightarrow> pyfloat option"

text \<open>
  \<^verbatim>\<open>pd.read_csv\<close> of a file a flow wrote: a frame without columns is written as
  blank lines, on which the reader raises \<^verbatim>\<open>EmptyDataError\<close>.
\<close>

definition read_csv :: "(frame \<Rightarrow> frame) \<Rightarrow> frame \<Rightarrow> error + frame" where
  "read_csv decode f = (if cols f = [] then Inl EmptyDataError else Inr (decode f))"

subsection \<open>Silver flow\<close>

definition ts_cols :: "string list" where
  "ts_cols = [''first_response_at'', ''resolved_at'', ''updated_at'', ''created_at'',
              ''order_timestamp'', ''last_delivery_at'', ''sla_due_at'']"

definition to_datetime :: "('a pandas_scheme) \<Rightarrow> cell \<Rightarrow> cell" where
  "to_datetime L c =
     (if is_null c then Null else case to_ts L c of Some t \<Rightarrow> Time t | None \<Rightarrow> Null)"

text \<open>
  The loop over the timestamp columns: each one present is parsed in place. With
  \<^verbatim>\<open>errors="coerce"\<close> a value that does not parse becomes \<^verbatim>\<open>NaT\<close> and the
  conversion does not raise, so the \<^verbatim>\<open>except\<close> branch, which converts the same
  values once more, is not a separate case.
\<close>

definition parse_timestamps :: "('a pandas_scheme) \<Rightarrow> frame \<Rightarrow> frame" where
  "parse_timestamps L df =
     foldl (\<lambda>d col. if has_col col d then set_col col (map (to_datetime L) (get_col col d)) d else d)
       df ts_cols"

text \<open>
  \<^verbatim>\<open>(resolved_at - first_response_at).dt.total_seconds() / 3600.0\<close> on one row: the
  difference of two timestamps in nanoseconds, as seconds, over 3600; \<^verbatim>\<open>nan\<close> when one
  of them is \<^verbatim>\<open>NaT\<close>.
\<close>

fun rt_hours :: "cell \<Rightarrow> cell \<Rightarrow> cell" where
  "rt_hours (Time resolved) (Time first_response) =
     Float (Fin (of_int (resolved - first_response) / 1000000000 / 3600))"
| "rt_hours a b = Float NaN"

definition add_response_time :: "frame \<Rightarrow> frame" where
  "add_response_time df =
     (if has_col ''resolved_at'' df \<and> has_col ''first_response_at'' df
      then set_col ''response_time_hours''
             (map (\<lambda>(a, b). rt_hours a b)
                (zip (get_col ''resolved_at'' df) (get_col ''first_response_at'' df))) df
      else set_col ''response_time_hours'' (replicate (nrows df) (Float NaN)) df)"

text \<open>
  The filter \<^verbatim>\<open>df[col.notna() & (col.astype(str).str.strip() != "")]\<close>.
  \<^verbatim>\<open>str.strip()\<close> removes white space at both ends; the string of a number, a
  timestamp or an object is never blank.
\<close>

definition is_space :: "char \<Rightarrow> bool" where
  "is_space c =
     ((9 \<le> (of_char c :: nat) \<and> (of_char c :: nat) \<le> 13) \<or>
      (28 \<le> (of_char c :: nat) \<and> (of_char c :: nat) \<le> 32) \<or>
      (of_char c :: nat) = 133 \<or> (of_char c :: nat) = 160)"

definition strip_ws :: "string \<Rightarrow> string" where
  "strip_ws s = rev (dropWhile is_space (rev (dropWhile is_space s)))"

definition keep_ticket :: "cell \<Rightarrow> bool" where
  "keep_ticket c = (\<not> is_null c \<and> (case c of Str s \<Rightarrow> strip_ws s \<noteq> [] | _ \<Rightarrow> True))"

definition select :: "bool list \<Rightarrow> 'a list \<Rightarrow> 'a list" where
  "select flags xs = map snd (filter fst (zip flags xs))"

definition select_rows :: "bool list \<Rightarrow> frame \<Rightarrow> frame" where
  "select_rows flags df =
     \<lparr>nrows = length (filter id flags), cols = map (\<lambda>(n, vs). (n, select flags vs)) (cols df)\<rparr>"

definition filter_tickets :: "frame \<Rightarrow> frame" where
  "filter_tickets df =
     (if has_col ''ticket_id'' df
      then select_rows (map keep_ticket (get_col ''ticket_id'' df)) df
      else df)"

definition silver_transform :: "('a pandas_scheme) \<Rightarrow> frame \<Rightarrow> frame" where
  "silver_transform L df = filter_tickets (add_response_time (parse_timestamps L df))"

text \<open>\<^verbatim>\<open>silver_flow\<close>: returns \<^verbatim>\<open>None\<close> and writes nothing when there is no bronze
  file; the reader's exception is not caught.\<close>

definition silver_flow :: "('a pandas_scheme) \<Rightarrow> store \<Rightarrow> error + store \<times> string option" where
  "silver_flow L st =
     (case bronze_file st of
        None \<Rightarrow> Inr (st, None)
      | Some f \<Rightarrow>
          (case read_csv (read_str L) f of
             Inl e \<Rightarrow> Inl e
           | Inr df \<Rightarrow>
               Inr (st\<lparr>silver_file := Some (silver_transform L df)\<rparr>, Some ''data/silver/silver.csv'')))"

subsection \<open>Gold flow\<close>

text \<open>
  \<^verbatim>\<open>df.groupby(col, dropna=...)\<close>: the group keys are the distinct values of the
  column in sorted order, the null values forming one last group unless they are dropped.
  Numbers sort by value and before strings, strings by code point.
\<close>

fun str_le :: "string \<Rightarrow> string \<Rightarrow> bool" where
  "str_le [] t = True"
| "str_le (a # s) [] = False"
| "str_le (a # s) (b # t) =
     ((of_char a :: nat) < of_char b \<or> (a = b \<and> str_le s t))"

fun num_val :: "cell \<Rightarrow> rat option" where
  "num_val (Integer i) = Some (of_int i)"
| "num_val (Float (Fin r)) = Some r"
| "num_val c = None"

definition cell_le :: "cell \<Rightarrow> cell \<Rightarrow> bool" where
  "cell_le a b =
     (case (num_val a, num_val b) of
        (Some x, Some y) \<Rightarrow> x \<le> y
      | (Some x, None) \<Rightarrow> True
      | (None, Some y) \<Rightarrow> False
      | (None, None) \<Rightarrow> (case (a, b) of (Str s, Str t) \<Rightarrow> str_le s t | _ \<Rightarrow> True))"

fun insert_cell :: "cell \<Rightarrow> cell list \<Rightarrow> cell list" where
  "insert_cell x [] = [x]"
| "insert_cell x (y # ys) = (if cell_le x y then x # y # ys else y # insert_cell x ys)"

definition sort_cells :: "cell list \<Rightarrow> cell list" where
  "sort_cells xs = foldr insert_cell xs []"

definition group_keys :: "bool \<Rightarrow> cell list \<Rightarrow> cell list" where
  "group_keys dropna ks =
     sort_cells (uniq (filter (\<lambda>c. \<not> is_null c) ks)) @
     (if \<not> dropna \<and> list_ex is_null ks then [Null] else [])"

definition same_key :: "cell \<Rightarrow> cell \<Rightarrow> bool" where
  "same_key k c = (if is_null k then is_null c else c = k)"

text \<open>\<^verbatim>\<open>.size()\<close> and \<^verbatim>\<open>[col].mean()\<close> of the groups; the mean skips \<^verbatim>\<open>nan\<close>
  and is \<^verbatim>\<open>nan\<close> for a group without a value.\<close>

definition groupby_size :: "bool \<Rightarrow> cell list \<Rightarrow> agg_counts" where
  "groupby_size dropna ks =
     map (\<lambda>k. (k, length (filter (same_key k) ks))) (group_keys dropna ks)"

fun finite_vals :: "pyfloat list \<Rightarrow> rat list" where
  "finite_vals [] = []"
| "finite_vals (NaN # vs) = finite_vals vs"
| "finite_vals (Fin r # vs) = r # finite_vals vs"

definition nan_mean :: "pyfloat list \<Rightarrow> pyfloat" where
  "nan_mean vs =
     (if finite_vals vs = [] then NaN
      else Fin (sum_list (finite_vals vs) / of_nat (length (finite_vals vs))))"

definition groupby_mean :: "cell list \<Rightarrow> pyfloat list \<Rightarrow> agg_means" where
  "groupby_mean ks vs =
     map (\<lambda>k. (k, nan_mean (map snd (filter (\<lambda>(c, v). same_key k c) (zip ks vs)))))
       (group_keys True ks)"

text \<open>\<^verbatim>\<open>pd.to_numeric(errors="coerce")\<close> on one value of a frame read from a file.\<close>

fun to_numeric :: "('a pandas_scheme) \<Rightarrow> cell \<Rightarrow> pyfloat" where
  "to_numeric L (Float x) = x"
| "to_numeric L (Integer i) = Fin (of_int i)"
| "to_numeric L (Str s) = to_num L s"
| "to_numeric L c = NaN"

text \<open>
  The score of a row: from \<^verbatim>\<open>sentiment_score\<close> when the column exists, else from the
  \<^verbatim>\<open>score\<close> of a \<^verbatim>\<open>sentiment\<close> object, else \<^verbatim>\<open>nan\<close>. (In the second case
  the source falls back to \<^verbatim>\<open>nan\<close> on every row should the conversion raise; on a
  frame read from a file no value is an object and every row is \<^verbatim>\<open>nan\<close> either way.)
\<close>

definition nested_score :: "cell \<Rightarrow> cell" where
  "nested_score x =
     (case x of Dict d \<Rightarrow> (case map_of d ''score'' of Some v \<Rightarrow> v | None \<Rightarrow> Null)
      | _ \<Rightarrow> Float NaN)"

definition sentiment_score_val :: "('a pandas_scheme) \<Rightarrow> frame \<Rightarrow> pyfloat list" where
  "sentiment_score_val L df =
     (if has_col ''sentiment_score'' df then map (to_numeric L) (get_col ''sentiment_score'' df)
      else if has_col ''sentiment'' df
      then map (\<lambda>x. to_numeric L (nested_score x)) (get_col ''sentiment'' df)
      else replicate (nrows df) NaN)"

text \<open>
  \<^verbatim>\<open>sentiment_label\<close>. \<^verbatim>\<open>float(v)\<close> raises on \<^verbatim>\<open>None\<close>, on a timestamp, on an
  object and on a string that is no number; every comparison with \<^verbatim>\<open>nan\<close> is false.
\<close>

fun py_float :: "('a pandas_scheme) \<Rightarrow> cell \<Rightarrow> pyfloat option" where
  "py_float L (Float x) = Some x"
| "py_float L (Integer i) = Some (Fin (of_int i))"
| "py_float L (Str s) = float_of_str L s"
| "py_float L c = None"

fun float_ge :: "pyfloat \<Rightarrow> rat \<Rightarrow> bool" where
  "float_ge NaN b = False"
| "float_ge (Fin a) b = (a \<ge> b)"

fun float_le :: "pyfloat \<Rightarrow> rat \<Rightarrow> bool" where
  "float_le NaN b = False"
| "float_le (Fin a) b = (a \<le> b)"

definition sentiment_label :: "('a pandas_scheme) \<Rightarrow> cell \<Rightarrow> string" where
  "sentiment_label L v =
     (case py_float L v of
        None \<Rightarrow> ''neutral''
      | Some x \<Rightarrow>
          if float_ge x (1 / 2) then ''positive''
          else if float_le x (- (1 / 2)) then ''negative''
          else ''neutral'')"

text \<open>The two columns the flow adds, and the labels of the rows.\<close>

definition with_sentiment :: "('a pandas_scheme) \<Rightarrow> frame \<Rightarrow> frame" where
  "with_sentiment L df =
     (let df1 = set_col ''sentiment_score_val'' (map Float (sentiment_score_val L df)) df
      in set_col ''sentiment_label''
           (map (\<lambda>v. Str (sentiment_label L v)) (get_col ''sentiment_score_val'' df1)) df1)"

text \<open>
  The rows of \<^verbatim>\<open>gold_summary.csv\<close>. \<^verbatim>\<open>x or 0.0\<close> is \<^verbatim>\<open>x\<close> when \<^verbatim>\<open>x\<close>
  is true, and a float is false only when it is zero. \<^verbatim>\<open>round(x, 4)\<close> rounds half to
  even and leaves \<^verbatim>\<open>nan\<close>.
\<close>

definition or_zero :: "pyfloat \<Rightarrow> pyfloat" where
  "or_zero x = (if x = Fin 0 then Fin 0 else x)"

definition round_half_even :: "rat \<Rightarrow> int" where
  "round_half_even q =
     (let f = \<lfloor>q\<rfloor>; d = q - of_int f in
      if d < 1 / 2 then f else if 1 / 2 < d then f + 1 else if even f then f else f + 1)"

fun round4 :: "pyfloat \<Rightarrow> pyfloat" where
  "round4 NaN = NaN"
| "round4 (Fin r) = Fin (of_int (round_half_even (r * 10000)) / 10000)"

definition count_row :: "string \<Rightarrow> cell \<times> nat \<Rightarrow> string \<times> cell \<times> cell" where
  "count_row metric r = (metric, fst r, Integer (int (snd r)))"

definition mean_row :: "string \<Rightarrow> cell \<times> pyfloat \<Rightarrow> string \<times> cell \<times> cell" where
  "mean_row metric r = (metric, fst r, Float (round4 (or_zero (snd r))))"

definition summary_rows ::
  "agg_counts \<Rightarrow> agg_counts \<Rightarrow> agg_counts \<Rightarrow> agg_means \<Rightarrow> (string \<times> cell \<times> cell) list" where
  "summary_rows tpa tbs tbsent avg_resp =
     map (count_row ''tickets_per_agent'') tpa @
     map (count_row ''tickets_by_status'') tbs @
     map (count_row ''tickets_by_sentiment'') tbsent @
     map (mean_row ''avg_response_time_per_agent'') avg_resp"

text \<open>The four aggregates, in the order of the source, on the frame read from the
  silver file. The plot is drawn from them and changes none.\<close>

definition gold_transform :: "('a pandas_scheme) \<Rightarrow> frame \<Rightarrow> gold_out" where
  "gold_transform L df =
     (let tpa = (if has_col ''agent_id'' df then groupby_size True (get_col ''agent_id'' df) else []);
          tbs = (if has_col ''status'' df then groupby_size True (get_col ''status'' df) else []);
          df2 = with_sentiment L df;
          tbsent = groupby_size False (get_col ''sentiment_label'' df2);
          avg_resp =
            (if has_col ''agent_id'' df2 \<and> has_col ''response_time_hours'' df2
             then let df3 = set_col ''response_time_hours''
                              (map (\<lambda>c. Float (to_numeric L c)) (get_col ''response_time_hours'' df2)) df2
                  in groupby_mean (get_col ''agent_id'' df3)
                       (map (to_numeric L) (get_col ''response_time_hours'' df3))
             else [])
      in \<lparr>tickets_per_agent = tpa, tickets_by_status = tbs, tickets_by_sentiment = tbsent,
          avg_response_time_per_agent = avg_resp,
          gold_summary = summary_rows tpa tbs tbsent avg_resp\<rparr>)"

text \<open>\<^verbatim>\<open>gold_flow\<close> and the driver \<^verbatim>\<open>run_all\<close>, which calls the three flows in
  order and catches none of their exceptions.\<close>

definition gold_flow :: "('a pandas_scheme) \<Rightarrow> store \<Rightarrow> error + store \<times> string option" where
  "gold_flow L st =
     (case silver_file st of
        None \<Rightarrow> Inr (st, None)
      | Some f \<Rightarrow>
          (case read_csv (read_infer L) f of
             Inl e \<Rightarrow> Inl e
           | Inr df \<Rightarrow> Inr (st\<lparr>gold_files := Some (gold_transform L df)\<rparr>, Some ''data/gold'')))"

definition run_all :: "('a pandas_scheme) \<Rightarrow> store \<Rightarrow> error + store" where
  "run_all L st =
     (case bronze_flow st of
        Inl e \<Rightarrow> Inl e
      | Inr (st1, bronze_path) \<Rightarrow>
          (case silver_flow L st1 of
             Inl e \<Rightarrow> Inl e
           | Inr (st2, silver_path) \<Rightarrow>
               (case gold_flow L st2 of
                  Inl e \<Rightarrow> Inl e
                | Inr (st3, gold_dir) \<Rightarrow> Inr st3)))"

subsection \<open>Vocabulary of the properties\<close>

text \<open>A string in which no two underscores are adjacent.\<close>

fun no_dbl :: "string \<Rightarrow> bool" where
  "no_dbl (c # d # cs) = (\<not> (is_us c \<and> is_us d) \<and> no_dbl (d # cs))"
| "no_dbl cs = True"

text \<open>A well-formed frame: every column has one value for each row.\<close>

definition wf_frame :: "frame \<Rightarrow> bool" where
  "wf_frame df = list_all (\<lambda>(n, vs). length vs = nrows df) (cols df)"

text \<open>A parsed timestamp value: a timestamp or \<^verbatim>\<open>NaT\<close>.\<close>

fun time_or_null :: "cell \<Rightarrow> bool" where
  "time_or_null Null = True"
| "time_or_null (Time t) = True"
| "time_or_null c = False"

text \<open>One round of the loop over the timestamp columns.\<close>

definition parse_step :: "('a pandas_scheme) \<Rightarrow> frame \<Rightarrow> string \<Rightarrow> frame" where
  "parse_step L d col = (if has_col col d then set_col col (map (to_datetime L) (get_col col d)) d else d)"

subsection \<open>Example inputs\<close>

text \<open>
  A reading of the library parameters on a handful of strings, two frames as the silver
  flow reads them: three tickets, one with a blank identifier, and two orders.
\<close>

definition demo_ts :: "cell \<Rightarrow> int option" where
  "demo_ts c =
     (case c of
        Str s \<Rightarrow>
          (if s = ''2024-01-01T00:00:00Z'' then Some 1704067200000000000
           else if s = ''2024-01-01T02:00:00Z'' then Some 1704074400000000000
           else None)
      | _ \<Rightarrow> None)"

definition demo_pandas :: pandas where
  "demo_pandas =
     \<lparr>read_str = (\<lambda>f. f), read_infer = (\<lambda>f. f), to_ts = demo_ts,
      to_num = (\<lambda>s. if s = ''0.7'' then Fin (7 / 10) else NaN),
      float_of_str = (\<lambda>s. if s = ''0.7'' then Some (Fin (7 / 10)) else None)\<rparr>"

definition demo_tickets :: frame where
  "demo_tickets =
     \<lparr>nrows = 3,
      cols = [(''ticket_id'', [Str ''t1'', Str ''  '', Str ''t3'']),
              (''first_response_at'', [Str ''2024-01-01T00:00:00Z'', Str ''2024-01-01T00:00:00Z'', Null]),
              (''resolved_at'', [Str ''2024-01-01T02:00:00Z'', Null, Str ''2024-01-01T02:00:00Z''])]\<rparr>"

definition demo_orders :: frame where
  "demo_orders =
     \<lparr>nrows = 2,
      cols = [(''order_id'', [Str ''o1'', Str ''o2'']),
              (''created_at'', [Str ''2024-01-01T00:00:00Z'', Str ''soon''])]\<rparr>"

text \<open>
  A frame as the gold flow reads it (four tickets, one without an agent, a score on each
  threshold, one as text and one missing), a frame of two tickets of one agent, neither
  with a response time, and the three labels as cells.
\<close>

definition demo_silver :: frame where
  "demo_silver =
     \<lparr>nrows = 4,
      cols = [(''ticket_id'', [Str ''t1'', Str ''t2'', Str ''t3'', Str ''t4'']),
              (''agent_id'', [Str ''a2'', Str ''a1'', Str ''a2'', Null]),
              (''status'', [Str ''open'', Str ''closed'', Str ''open'', Str ''open'']),
              (''sentiment_score'', [Float (Fin (1 / 2)), Float (Fin (- (1 / 2))), Str ''0.7'', Null]),
              (''response_time_hours'', [Float (Fin 2), Float NaN, Float (Fin (1 / 3)), Float (Fin 5)])]\<rparr>"

definition unanswered :: frame where
  "unanswered =
     \<lparr>nrows = 2,
      cols = [(''agent_id'', [Str ''a1'', Str ''a1'']),
              (''response_time_hours'', [Float NaN, Float NaN])]\<rparr>"

definition labels :: "cell set" where
  "labels = {Str ''positive'', Str ''neutral'', Str ''negative''}"

text \<open>
  The set of column labels of a result, two frames of the same height whose labels are
  the same set (in the same order, or without repetition on both sides), a store without
  any file, a store holding only \<^verbatim>\<open>customers.csv\<close> with one row, and a table and a
  log as the bronze flow holds them in memory.
\<close>

definition column_set :: "error + frame \<Rightarrow> error + string set" where
  "column_set r = (case r of Inl e \<Rightarrow> Inl e | Inr df \<Rightarrow> Inr (set (columns df)))"

definition similar :: "frame \<Rightarrow> frame \<Rightarrow> bool" where
  "similar X Y =
     (nrows X = nrows Y \<and> set (columns X) = set (columns Y) \<and>
      (columns X = columns Y \<or> (distinct (columns X) \<and> distinct (columns Y))))"

definition no_files :: store where
  "no_files = \<lparr>csv_files = (\<lambda>fname. None), jsonl_file = None, bronze_file = None,
                silver_file = None, gold_files = None\<rparr>"

definition customers_only :: "string \<Rightarrow> source option" where
  "customers_only =
     (\<lambda>fname. if fname = ''customers.csv''
               then Some (Readable \<lparr>nrows = 1, cols = [(''id'', [Str ''1''])]\<rparr>) else None)"

definition demo_customers :: frame where
  "demo_customers = \<lparr>nrows = 1, cols = [(''id'', [Str ''1'']), (''name'', [Str ''Ann''])]\<rparr>"

definition demo_log :: frame where
  "demo_log = \<lparr>nrows = 1, cols = [(''ticket_id'', [Str ''t1'']), (''sentiment_score'', [Float (Fin (1 / 2))])]\<rparr>"

section \<open>Properties\<close>

subsection \<open>Normalized names\<close>

lemma of_char_lower_char:
  "(of_char (lower_char c) :: nat) =
     (if (65 \<le> (of_char c :: nat) \<and> (of_char c :: nat) \<le> 90) \<or>
         (192 \<le> (of_char c :: nat) \<and> (of_char c :: nat) \<le> 222 \<and> (of_char c :: nat) \<noteq> 215)
      then of_char c + 32 else of_char c)"
  by (auto simp: lower_char_def Let_def)

lemma char_eq_code: "(c = d) = ((of_char c :: nat) = of_char d)"
  by simp

lemma lower_char_not_upper: "\<not> is_upper (lower_char c)"
  by (auto simp: is_upper_def of_char_lower_char)

lemma lower_char_us: "is_us (lower_char c) = is_us c"
  unfolding is_us_def char_eq_code [of _ "CHR ''_''"] by (auto simp: of_char_lower_char)

lemma lower_char_sep: "is_sep (lower_char c) = is_sep c"
  unfolding is_sep_def char_eq_code [of _ "CHR '' ''"] char_eq_code [of _ "CHR ''-''"]
  by (auto simp: of_char_lower_char)

lemma lower_char_idem: "lower_char (lower_char c) = lower_char c"
  unfolding char_eq_code [of "lower_char (lower_char c)"]
  by (auto simp: of_char_lower_char)

lemma sub_seps_fix: "\<forall>c\<in>set s. \<not> is_sep c \<Longrightarrow> sub_seps s = s"
  by (induction s) auto

lemma sub_word_fix: "\<forall>c\<in>set s. \<not> is_upper c \<Longrightarrow> sub_word s = s"
  by (induction s rule: sub_word.induct) auto

lemma sub_hump_fix: "\<forall>c\<in>set s. \<not> is_upper c \<Longrightarrow> sub_hump s = s"
  by (induction s rule: sub_hump.induct) auto

lemma sub_runs_fix: "no_dbl s \<Longrightarrow> sub_runs s = s"
  by (induction s rule: sub_runs.induct) auto

lemma sub_seps_no_sep: "c \<in> set (sub_seps s) \<Longrightarrow> \<not> is_sep c"
proof (induction s rule: sub_seps.induct)
  case 1
  then show ?case by simp
next
  case (2 d ds)
  then show ?case by (auto simp: is_sep_def split: if_splits)
qed

lemma sub_word_set: "set (sub_word s) \<subseteq> insert (CHR ''_'') (set s)"
proof (induction s rule: sub_word.induct)
  case (4 c u l cs)
  have "set (takeWhile is_lower cs) \<subseteq> set cs" by (auto dest: set_takeWhileD)
  moreover have "set (dropWhile is_lower cs) \<subseteq> set cs" by (auto dest: set_dropWhileD)
  ultimately show ?case using 4 by (auto split: if_splits)
qed auto

lemma sub_hump_set: "set (sub_hump s) \<subseteq> insert (CHR ''_'') (set s)"
  by (induction s rule: sub_hump.induct) auto

lemma sub_runs_set: "set (sub_runs s) \<subseteq> set s"
proof (induction s rule: sub_runs.induct)
  case (3 c d cs)
  have "set (dropWhile is_us cs) \<subseteq> set cs" by (auto dest: set_dropWhileD)
  then show ?case using 3 by (auto simp: is_us_def split: if_splits)
qed auto

lemma strip_us_set: "set (strip_us s) \<subseteq> set s"
  unfolding strip_us_def by (auto dest!: set_dropWhileD)

lemma sub_runs_hd: "sub_runs s \<noteq> [] \<Longrightarrow> hd (sub_runs s) = hd s"
  by (induction s rule: sub_runs.induct) (auto simp: is_us_def)

lemma sub_runs_nil: "(sub_runs s = []) = (s = [])"
  by (induction s rule: sub_runs.induct) auto

lemma no_dbl_Cons: "no_dbl (c # s) = ((s \<noteq> [] \<longrightarrow> \<not> (is_us c \<and> is_us (hd s))) \<and> no_dbl s)"
  by (cases s) auto

lemma sub_runs_no_dbl: "no_dbl (sub_runs s)"
proof (induction s rule: sub_runs.induct)
  case (3 c d cs)
  show ?case
  proof (cases "is_us c \<and> is_us d")
    case True
    have "dropWhile is_us cs \<noteq> [] \<Longrightarrow> \<not> is_us (hd (dropWhile is_us cs))"
      by (rule hd_dropWhile)
    then show ?thesis using True 3
      by (auto simp: no_dbl_Cons sub_runs_nil sub_runs_hd is_us_def)
  next
    case False
    then show ?thesis using 3
      by (auto simp: no_dbl_Cons sub_runs_nil sub_runs_hd)
  qed
qed auto

lemma no_dbl_suffix: "no_dbl (xs @ ys) \<Longrightarrow> no_dbl ys"
  by (induction xs) (auto simp: no_dbl_Cons)

lemma no_dbl_prefix: "no_dbl (xs @ ys) \<Longrightarrow> no_dbl xs"
  by (induction xs) (auto simp: no_dbl_Cons)

lemma strip_us_no_dbl: "no_dbl s \<Longrightarrow> no_dbl (strip_us s)"
proof -
  assume a: "no_dbl s"
  let ?t = "dropWhile is_us s"
  have "s = takeWhile is_us s @ ?t" by simp
  with a have t: "no_dbl ?t" by (metis no_dbl_suffix)
  have "rev ?t = takeWhile is_us (rev ?t) @ dropWhile is_us (rev ?t)" by simp
  then have "?t = rev (dropWhile is_us (rev ?t)) @ rev (takeWhile is_us (rev ?t))"
    by (metis rev_append rev_rev_ident)
  with t show ?thesis unfolding strip_us_def by (metis no_dbl_prefix)
qed

lemma no_dbl_lower: "no_dbl (lower s) = no_dbl s"
  by (induction s rule: no_dbl.induct) (auto simp: lower_def lower_char_us)

lemma last_dropWhile_ne: "dropWhile P xs \<noteq> [] \<Longrightarrow> last (dropWhile P xs) = last xs"
proof -
  assume ne: "dropWhile P xs \<noteq> []"
  have "last (takeWhile P xs @ dropWhile P xs) = last (dropWhile P xs)"
    using ne by (rule last_appendR)
  then show ?thesis by simp
qed

lemma strip_us_ends:
  assumes ne: "strip_us s \<noteq> []"
  shows "\<not> is_us (hd (strip_us s))" and "\<not> is_us (last (strip_us s))"
proof -
  let ?t = "dropWhile is_us s"
  let ?u = "dropWhile is_us (rev ?t)"
  from ne have une: "?u \<noteq> []" by (simp add: strip_us_def)
  then have l: "\<not> is_us (hd ?u)" by (rule hd_dropWhile)
  have tne: "?t \<noteq> []"
  proof
    assume "?t = []"
    then have "?u = []" by (simp only: rev.simps dropWhile.simps)
    with une show False by simp
  qed
  then have h: "\<not> is_us (hd ?t)" by (rule hd_dropWhile)
  have "last ?u = last (rev ?t)" using une by (rule last_dropWhile_ne)
  also have "\<dots> = hd ?t" using tne by (simp add: last_rev)
  finally have "hd (rev ?u) = hd ?t" using une by (simp add: hd_rev)
  with h show "\<not> is_us (hd (strip_us s))" by (simp add: strip_us_def)
  have "last (rev ?u) = hd ?u" using une by (simp add: last_rev)
  with l show "\<not> is_us (last (strip_us s))" by (simp add: strip_us_def)
qed

lemma strip_us_fix:
  assumes "s \<noteq> [] \<Longrightarrow> \<not> is_us (hd s)" and "s \<noteq> [] \<Longrightarrow> \<not> is_us (last s)"
  shows "strip_us s = s"
proof (cases s)
  case Nil
  then show ?thesis by (simp add: strip_us_def)
next
  case (Cons c cs)
  with assms have h: "\<not> is_us (hd s)" and l: "\<not> is_us (last s)" by auto
  have a: "dropWhile is_us s = s" using h Cons by simp
  obtain x xs where r: "rev s = x # xs" using Cons by (cases "rev s") auto
  have "hd (rev s) = last s" using Cons by (simp add: hd_rev)
  with r l have "\<not> is_us x" by simp
  then have "dropWhile is_us (rev s) = rev s" unfolding r by simp
  with a show ?thesis by (simp add: strip_us_def)
qed

lemma lower_ends:
  assumes "s \<noteq> []"
  shows "is_us (hd (lower s)) = is_us (hd s)" and "is_us (last (lower s)) = is_us (last s)"
  using assms by (simp_all add: lower_def hd_map last_map lower_char_us)

lemma to_snake_fix:
  assumes up: "\<forall>c\<in>set s. \<not> is_upper c" and sep: "\<forall>c\<in>set s. \<not> is_sep c"
    and dbl: "no_dbl s" and h: "s \<noteq> [] \<Longrightarrow> \<not> is_us (hd s)" and l: "s \<noteq> [] \<Longrightarrow> \<not> is_us (last s)"
  shows "to_snake s = lower s"
  using assms by (simp add: to_snake_def sub_seps_fix sub_word_fix sub_hump_fix sub_runs_fix strip_us_fix)

lemma to_snake_no_sep: "c \<in> set (to_snake s) \<Longrightarrow> \<not> is_sep c"
proof -
  assume "c \<in> set (to_snake s)"
  then obtain d where d: "d \<in> set (strip_us (sub_runs (sub_hump (sub_word (sub_seps s)))))"
    and c: "c = lower_char d" by (auto simp: to_snake_def lower_def)
  from d have "d \<in> set (sub_hump (sub_word (sub_seps s)))"
    using strip_us_set sub_runs_set by blast
  then have "d = CHR ''_'' \<or> d \<in> set (sub_seps s)"
    using sub_hump_set sub_word_set by blast
  then have "\<not> is_sep d" by (auto simp: is_sep_def dest: sub_seps_no_sep)
  with c show ?thesis by (simp add: lower_char_sep)
qed

lemma to_snake_no_upper: "c \<in> set (to_snake s) \<Longrightarrow> \<not> is_upper c"
  by (auto simp: to_snake_def lower_def lower_char_not_upper)

lemma to_snake_no_dbl: "no_dbl (to_snake s)"
  by (simp add: to_snake_def no_dbl_lower strip_us_no_dbl sub_runs_no_dbl)

lemma to_snake_ends:
  assumes "to_snake s \<noteq> []"
  shows "\<not> is_us (hd (to_snake s))" and "\<not> is_us (last (to_snake s))"
proof -
  let ?t = "strip_us (sub_runs (sub_hump (sub_word (sub_seps s))))"
  from assms have ne: "?t \<noteq> []" by (auto simp: to_snake_def lower_def)
  show "\<not> is_us (hd (to_snake s))"
    using strip_us_ends(1) [OF ne] lower_ends(1) [OF ne] by (simp add: to_snake_def)
  show "\<not> is_us (last (to_snake s))"
    using strip_us_ends(2) [OF ne] lower_ends(2) [OF ne] by (simp add: to_snake_def)
qed

lemma lower_to_snake: "lower (to_snake s) = to_snake s"
  by (simp add: to_snake_def lower_def lower_char_idem)

lemma to_snake_idem: "to_snake (to_snake s) = to_snake s"
proof -
  have "to_snake (to_snake s) = lower (to_snake s)"
    by (rule to_snake_fix) (auto simp: to_snake_no_upper to_snake_no_sep to_snake_no_dbl to_snake_ends)
  then show ?thesis by (simp add: lower_to_snake)
qed

lemma to_snake_hd: "to_snake s \<noteq> [] \<Longrightarrow> hd (to_snake s) \<noteq> CHR ''_''"
  using to_snake_ends(1) [of s] by (simp add: is_us_def)

text \<open>
  Claim C6. Field-name normalization is idempotent: normalizing a normalized name returns
  it unchanged, for every header string; and the headers \<^verbatim>\<open>Customer ID\<close> and
  \<^verbatim>\<open>customerId\<close> both normalize to \<^verbatim>\<open>customer_id\<close>.
\<close>

theorem to_snake_idempotent:
  "to_snake (to_snake s) = to_snake s \<and>
   to_snake ''Customer ID'' = ''customer_id'' \<and>
   to_snake ''customerId'' = ''customer_id''"
proof -
  have "to_snake ''Customer ID'' = ''customer_id''" by code_simp
  moreover have "to_snake ''customerId'' = ''customer_id''" by code_simp
  ultimately show ?thesis by (simp add: to_snake_idem)
qed

theorem to_snake_idempotent_witness:
  "to_snake (to_snake ''HTTPServer-Error  Code'') = ''http_server_error_code'' \<and>
   to_snake ''HTTPServer-Error  Code'' = ''http_server_error_code''"
proof -
  have "to_snake ''HTTPServer-Error  Code'' = ''http_server_error_code''" by code_simp
  then show ?thesis using to_snake_idempotent [of "''HTTPServer-Error  Code''"] by simp
qed

subsection \<open>Columns of a frame\<close>

lemma columns_set_col:
  "columns (set_col n vs df) = (if has_col n df then columns df else columns df @ [n])"
  by (auto simp: set_col_def columns_def has_col_def split: prod.splits)

lemma has_col_set_col: "has_col m (set_col n vs df) = (m = n \<or> has_col m df)"
  by (auto simp: has_col_def columns_set_col)

lemma nrows_set_col: "nrows (set_col n vs df) = nrows df"
  by (simp add: set_col_def)

lemma map_of_overwrite:
  "map_of (map (\<lambda>(n, old). if n = name then (n, vs) else (n, old)) xs) m =
     (if m = name then (if name \<in> fst ` set xs then Some vs else None) else map_of xs m)"
  by (induction xs) (force split: prod.splits)+

lemma get_col_set_col_same: "get_col n (set_col n vs df) = vs"
proof (cases "has_col n df")
  case True
  then show ?thesis
    by (simp add: get_col_def set_col_def has_col_def columns_def map_of_overwrite)
next
  case False
  then have "map_of (cols df) n = None"
    by (simp add: has_col_def columns_def map_of_eq_None_iff)
  with False show ?thesis by (simp add: get_col_def set_col_def map_add_def)
qed

lemma get_col_set_col_other: "m \<noteq> n \<Longrightarrow> get_col m (set_col n vs df) = get_col m df"
  by (auto simp: get_col_def set_col_def has_col_def columns_def map_of_overwrite
      map_add_def split: option.splits)

lemma wf_get_col: "wf_frame df \<Longrightarrow> has_col n df \<Longrightarrow> length (get_col n df) = nrows df"
proof -
  assume wf: "wf_frame df" and h: "has_col n df"
  from h have "map_of (cols df) n \<noteq> None"
    by (simp add: has_col_def columns_def map_of_eq_None_iff)
  then obtain vs where m: "map_of (cols df) n = Some vs" by auto
  then have "(n, vs) \<in> set (cols df)" by (rule map_of_SomeD)
  with wf have "length vs = nrows df" by (auto simp: wf_frame_def list_all_iff)
  with m show ?thesis by (simp add: get_col_def)
qed

lemma wf_set_col: "wf_frame df \<Longrightarrow> length vs = nrows df \<Longrightarrow> wf_frame (set_col n vs df)"
  by (auto simp: wf_frame_def set_col_def list_all_iff split: if_splits)

subsection \<open>Silver flow\<close>

lemma parse_timestamps_foldl: "parse_timestamps L df = foldl (parse_step L) df ts_cols"
  by (simp add: parse_timestamps_def parse_step_def [abs_def])

lemma columns_parse_step: "columns (parse_step L d col) = columns d"
  by (simp add: parse_step_def columns_set_col)

lemma nrows_parse_step: "nrows (parse_step L d col) = nrows d"
  by (simp add: parse_step_def nrows_set_col)

lemma get_col_parse_step:
  "get_col c (parse_step L d col) =
     (if c = col \<and> has_col col d then map (to_datetime L) (get_col col d) else get_col c d)"
  by (simp add: parse_step_def get_col_set_col_same get_col_set_col_other)

lemma wf_parse_step: "wf_frame d \<Longrightarrow> wf_frame (parse_step L d col)"
  by (simp add: parse_step_def wf_set_col wf_get_col)

lemma columns_foldl_parse: "columns (foldl (parse_step L) d cs) = columns d"
  by (induction cs arbitrary: d) (simp_all add: columns_parse_step)

lemma nrows_foldl_parse: "nrows (foldl (parse_step L) d cs) = nrows d"
  by (induction cs arbitrary: d) (simp_all add: nrows_parse_step)

lemma wf_foldl_parse: "wf_frame d \<Longrightarrow> wf_frame (foldl (parse_step L) d cs)"
  by (induction cs arbitrary: d) (simp_all add: wf_parse_step)

lemma get_col_foldl_parse:
  "distinct cs \<Longrightarrow>
   get_col c (foldl (parse_step L) d cs) =
     (if c \<in> set cs \<and> has_col c d then map (to_datetime L) (get_col c d) else get_col c d)"
proof (induction cs arbitrary: d)
  case Nil
  then show ?case by simp
next
  case (Cons x xs)
  have h: "has_col c (parse_step L d x) = has_col c d"
    by (simp add: has_col_def columns_parse_step)
  from Cons show ?case
    by (auto simp: h get_col_parse_step)
qed

lemma distinct_ts_cols: "distinct ts_cols"
  by (simp add: ts_cols_def)

lemma columns_parse: "columns (parse_timestamps L df) = columns df"
  by (simp add: parse_timestamps_foldl columns_foldl_parse)

lemma has_col_parse: "has_col c (parse_timestamps L df) = has_col c df"
  by (simp add: has_col_def columns_parse)

lemma nrows_parse: "nrows (parse_timestamps L df) = nrows df"
  by (simp add: parse_timestamps_foldl nrows_foldl_parse)

lemma wf_parse: "wf_frame df \<Longrightarrow> wf_frame (parse_timestamps L df)"
  by (simp add: parse_timestamps_foldl wf_foldl_parse)

lemma get_col_parse:
  "get_col c (parse_timestamps L df) =
     (if c \<in> set ts_cols \<and> has_col c df then map (to_datetime L) (get_col c df) else get_col c df)"
  by (simp add: parse_timestamps_foldl get_col_foldl_parse distinct_ts_cols)

lemma time_or_null_to_datetime: "time_or_null (to_datetime L c)"
  by (simp add: to_datetime_def split: option.splits)

lemma columns_add_response_time:
  "columns (add_response_time df) =
     (if has_col ''response_time_hours'' df then columns df else columns df @ [''response_time_hours''])"
  by (simp add: add_response_time_def columns_set_col)

lemma has_col_add_response_time:
  "has_col c (add_response_time df) = (c = ''response_time_hours'' \<or> has_col c df)"
  by (auto simp: has_col_def columns_add_response_time)

lemma nrows_add_response_time: "nrows (add_response_time df) = nrows df"
  by (simp add: add_response_time_def nrows_set_col)

lemma get_col_add_response_time_other:
  "c \<noteq> ''response_time_hours'' \<Longrightarrow> get_col c (add_response_time df) = get_col c df"
  by (simp add: add_response_time_def get_col_set_col_other)

lemma get_col_add_response_time:
  "get_col ''response_time_hours'' (add_response_time df) =
     (if has_col ''resolved_at'' df \<and> has_col ''first_response_at'' df
      then map (\<lambda>(a, b). rt_hours a b) (zip (get_col ''resolved_at'' df) (get_col ''first_response_at'' df))
      else replicate (nrows df) (Float NaN))"
  by (simp add: add_response_time_def get_col_set_col_same)

lemma wf_add_response_time: "wf_frame df \<Longrightarrow> wf_frame (add_response_time df)"
  by (simp add: add_response_time_def wf_set_col wf_get_col)

lemma columns_select_rows: "columns (select_rows m df) = columns df"
  by (simp add: select_rows_def columns_def split_beta comp_def)

lemma get_col_select_rows: "get_col c (select_rows m df) = select m (get_col c df)"
proof -
  have "map_of (map (\<lambda>(n, vs). (n, select m vs)) (cols df)) c = map_option (select m) (map_of (cols df) c)"
    by (induction "cols df" arbitrary: df) (auto simp: map_of_map split: prod.splits) 
  then show ?thesis
    by (simp add: get_col_def select_rows_def select_def split: option.splits)
qed

lemma select_Nil: "select m [] = []"
  by (simp add: select_def)

lemma select_Cons: "select (b # m) (x # xs) = (if b then x # select m xs else select m xs)"
  by (simp add: select_def)

lemma select_map2:
  "select m (map (\<lambda>(a, b). f a b) (zip xs ys)) = map (\<lambda>(a, b). f a b) (zip (select m xs) (select m ys))"
proof (induction m arbitrary: xs ys)
  case Nil
  then show ?case by (simp add: select_def)
next
  case (Cons b m)
  show ?case
  proof (cases xs)
    case Nil
    then show ?thesis by (simp add: select_Nil)
  next
    case xs: (Cons x xs')
    show ?thesis
    proof (cases ys)
      case Nil
      then show ?thesis by (simp add: select_Nil)
    next
      case ys: (Cons y ys')
      show ?thesis using Cons [of xs' ys'] by (simp add: xs ys select_Cons)
    qed
  qed
qed

lemma set_select: "set (select m xs) \<subseteq> set xs"
  by (auto simp: select_def dest: set_zip_rightD)

lemma length_select: "length m = length xs \<Longrightarrow> length (select m xs) = length (filter id m)"
proof (induction m arbitrary: xs)
  case Nil
  then show ?case by (simp add: select_def)
next
  case (Cons b m)
  then obtain x xs' where xs: "xs = x # xs'" by (cases xs) auto
  with Cons show ?case by (simp add: select_Cons)
qed

lemma wf_select_rows: "wf_frame df \<Longrightarrow> length m = nrows df \<Longrightarrow> wf_frame (select_rows m df)"
  by (auto simp: wf_frame_def select_rows_def list_all_iff length_select)

lemma wf_filter_tickets: "wf_frame df \<Longrightarrow> wf_frame (filter_tickets df)"
  by (simp add: filter_tickets_def wf_select_rows wf_get_col)

lemma wf_silver_transform: "wf_frame df \<Longrightarrow> wf_frame (silver_transform L df)"
  by (simp add: silver_transform_def wf_filter_tickets wf_add_response_time wf_parse)

lemma columns_filter_tickets: "columns (filter_tickets df) = columns df"
  by (simp add: filter_tickets_def columns_select_rows)

lemma has_col_silver_transform:
  "has_col c (silver_transform L df) = (c = ''response_time_hours'' \<or> has_col c df)"
proof -
  have "has_col c (silver_transform L df) = has_col c (add_response_time (parse_timestamps L df))"
    by (simp add: silver_transform_def has_col_def columns_filter_tickets)
  then show ?thesis by (simp add: has_col_add_response_time has_col_parse)
qed

lemma get_col_filter_tickets:
  "get_col c (filter_tickets df) =
     (if has_col ''ticket_id'' df
      then select (map keep_ticket (get_col ''ticket_id'' df)) (get_col c df)
      else get_col c df)"
  by (simp add: filter_tickets_def get_col_select_rows)

lemma all_same_replicate: "set xs \<subseteq> {x} \<Longrightarrow> xs = replicate (length xs) x"
  by (induction xs) auto

lemma rt_hours_null: "rt_hours Null b = Float NaN" "rt_hours a Null = Float NaN"
  by (cases a; simp)+

lemma nrows_filter_tickets_absent:
  "\<not> has_col ''ticket_id'' df \<Longrightarrow> filter_tickets df = df"
  by (simp add: filter_tickets_def)

text \<open>
  Claim C5. On a frame with both \<^verbatim>\<open>resolved_at\<close> and \<^verbatim>\<open>first_response_at\<close>,
  the silver table's \<^verbatim>\<open>response_time_hours\<close> is, row by row, the difference of the
  two parsed timestamps of that row in seconds over 3600 (2 for a gap of 7200 seconds) and
  \<^verbatim>\<open>nan\<close> when one of them is null; when one of the two columns is missing, the
  column \<^verbatim>\<open>response_time_hours\<close> is still there and \<^verbatim>\<open>nan\<close> on every row.
  Times are exact here: the rounding of floating point is outside the model.
\<close>

theorem response_time_hours_derived:
  assumes wf: "wf_frame df"
  shows "has_col ''response_time_hours'' (silver_transform L df) \<and>
    length (get_col ''response_time_hours'' (silver_transform L df)) = nrows (silver_transform L df) \<and>
    (has_col ''resolved_at'' df \<and> has_col ''first_response_at'' df \<longrightarrow>
       get_col ''response_time_hours'' (silver_transform L df) =
         map (\<lambda>(a, b). rt_hours a b)
           (zip (get_col ''resolved_at'' (silver_transform L df))
                (get_col ''first_response_at'' (silver_transform L df))) \<and>
       length (get_col ''resolved_at'' (silver_transform L df)) = nrows (silver_transform L df) \<and>
       length (get_col ''first_response_at'' (silver_transform L df)) = nrows (silver_transform L df) \<and>
       list_all time_or_null (get_col ''resolved_at'' (silver_transform L df)) \<and>
       list_all time_or_null (get_col ''first_response_at'' (silver_transform L df))) \<and>
    (\<not> (has_col ''resolved_at'' df \<and> has_col ''first_response_at'' df) \<longrightarrow>
       get_col ''response_time_hours'' (silver_transform L df) =
         replicate (nrows (silver_transform L df)) (Float NaN)) \<and>
    rt_hours (Time r) (Time f) = Float (Fin (of_int (r - f) / 1000000000 / 3600)) \<and>
    rt_hours (Time (t0 + 7200 * 1000000000)) (Time t0) = Float (Fin 2) \<and>
    rt_hours Null b = Float NaN \<and> rt_hours a Null = Float NaN"
proof -
  let ?out = "silver_transform L df"
  let ?p = "parse_timestamps L df"
  let ?e = "add_response_time ?p"
  have wfo: "wf_frame ?out" using wf by (rule wf_silver_transform)
  have len: "has_col c ?out \<Longrightarrow> length (get_col c ?out) = nrows ?out" for c
    using wfo by (rule wf_get_col)
  have h: "has_col ''response_time_hours'' ?out" by (simp add: has_col_silver_transform)
  have both: "get_col ''response_time_hours'' ?out =
         map (\<lambda>(a, b). rt_hours a b)
           (zip (get_col ''resolved_at'' ?out) (get_col ''first_response_at'' ?out))"
    if "has_col ''resolved_at'' df \<and> has_col ''first_response_at'' df"
    using that
    by (simp add: silver_transform_def get_col_filter_tickets get_col_add_response_time
        get_col_add_response_time_other has_col_parse select_map2)
  have tn: "list_all time_or_null (get_col c ?out)"
    if "c \<in> set ts_cols" "has_col c df" "c \<noteq> ''response_time_hours''" for c
  proof -
    have "get_col c ?p = map (to_datetime L) (get_col c df)"
      using that by (simp add: get_col_parse)
    then have "list_all time_or_null (get_col c ?e)"
      using that by (simp add: get_col_add_response_time_other list_all_iff time_or_null_to_datetime)
    then show ?thesis
      using set_select [of "map keep_ticket (get_col ''ticket_id'' ?e)" "get_col c ?e"]
      by (auto simp: silver_transform_def get_col_filter_tickets list_all_iff)
  qed
  have none: "get_col ''response_time_hours'' ?out = replicate (nrows ?out) (Float NaN)"
    if n: "\<not> (has_col ''resolved_at'' df \<and> has_col ''first_response_at'' df)"
  proof -
    have e: "get_col ''response_time_hours'' ?e = replicate (nrows ?p) (Float NaN)"
      using n by (auto simp: get_col_add_response_time has_col_parse)
    have "set (get_col ''response_time_hours'' ?out) \<subseteq> {Float NaN}"
      using set_select [of "map keep_ticket (get_col ''ticket_id'' ?e)" "get_col ''response_time_hours'' ?e"]
      by (auto simp: silver_transform_def get_col_filter_tickets e)
    then have "get_col ''response_time_hours'' ?out =
        replicate (length (get_col ''response_time_hours'' ?out)) (Float NaN)"
      by (rule all_same_replicate)
    with len [OF h] show ?thesis by simp
  qed
  have two: "rt_hours (Time (t0 + 7200 * 1000000000)) (Time t0) = Float (Fin 2)" by simp
  show ?thesis
    using h len [OF h] both none two tn [of "''resolved_at''"] tn [of "''first_response_at''"]
      len [of "''resolved_at''"] len [of "''first_response_at''"]
    by (simp add: rt_hours_null has_col_silver_transform ts_cols_def)
qed

theorem response_time_hours_derived_witness:
  "wf_frame demo_tickets \<and>
   has_col ''resolved_at'' demo_tickets \<and> has_col ''first_response_at'' demo_tickets \<and>
   get_col ''response_time_hours'' (silver_transform demo_pandas demo_tickets) =
     map (\<lambda>(a, b). rt_hours a b)
       (zip (get_col ''resolved_at'' (silver_transform demo_pandas demo_tickets))
            (get_col ''first_response_at'' (silver_transform demo_pandas demo_tickets))) \<and>
   get_col ''response_time_hours'' (silver_transform demo_pandas demo_tickets) =
     [Float (Fin 2), Float NaN]"
proof -
  have wf: "wf_frame demo_tickets" by (simp add: wf_frame_def demo_tickets_def)
  have hs: "has_col ''resolved_at'' demo_tickets \<and> has_col ''first_response_at'' demo_tickets"
    by (simp add: has_col_def columns_def demo_tickets_def)
  have ev: "get_col ''response_time_hours'' (silver_transform demo_pandas demo_tickets) =
     [Float (Fin 2), Float NaN]" by code_simp
  from response_time_hours_derived [OF wf, of demo_pandas] hs
  have "get_col ''response_time_hours'' (silver_transform demo_pandas demo_tickets) =
     map (\<lambda>(a, b). rt_hours a b)
       (zip (get_col ''resolved_at'' (silver_transform demo_pandas demo_tickets))
            (get_col ''first_response_at'' (silver_transform demo_pandas demo_tickets)))"
    by blast
  with wf hs ev show ?thesis by blast
qed

text \<open>
  Claim C8. On a frame without a \<^verbatim>\<open>ticket_id\<close> column the filter of the silver flow
  changes nothing: the silver table is the enriched frame, it has as many rows as the
  frame read from the bronze file, every column of that frame is still there, and every
  column that is neither a timestamp column nor \<^verbatim>\<open>response_time_hours\<close> holds the
  same values.
\<close>

theorem filter_noop_without_ticket_id:
  assumes "\<not> has_col ''ticket_id'' df"
  shows "filter_tickets (add_response_time (parse_timestamps L df)) =
           add_response_time (parse_timestamps L df) \<and>
         silver_transform L df = add_response_time (parse_timestamps L df) \<and>
         nrows (silver_transform L df) = nrows df \<and>
         (has_col c df \<longrightarrow> has_col c (silver_transform L df)) \<and>
         (c \<notin> set ts_cols \<and> c \<noteq> ''response_time_hours'' \<longrightarrow>
            get_col c (silver_transform L df) = get_col c df)"
proof -
  let ?e = "add_response_time (parse_timestamps L df)"
  from assms have "\<not> has_col ''ticket_id'' ?e"
    by (simp add: has_col_add_response_time has_col_parse)
  then have f: "filter_tickets ?e = ?e" by (rule nrows_filter_tickets_absent)
  then have s: "silver_transform L df = ?e" by (simp add: silver_transform_def)
  have n: "nrows ?e = nrows df" by (simp add: nrows_add_response_time nrows_parse)
  have g: "get_col c ?e = get_col c df" if "c \<notin> set ts_cols" "c \<noteq> ''response_time_hours''"
    using that by (simp add: get_col_add_response_time_other get_col_parse)
  show ?thesis using f s n g by (simp add: has_col_add_response_time has_col_parse)
qed

theorem filter_noop_without_ticket_id_witness:
  "\<not> has_col ''ticket_id'' demo_orders \<and>
   nrows (silver_transform demo_pandas demo_orders) = nrows demo_orders \<and>
   nrows demo_orders = 2 \<and>
   get_col ''order_id'' (silver_transform demo_pandas demo_orders) = get_col ''order_id'' demo_orders"
proof -
  have h: "\<not> has_col ''ticket_id'' demo_orders"
    by (simp add: has_col_def columns_def demo_orders_def)
  have c: "''order_id'' \<notin> set ts_cols \<and> ''order_id'' \<noteq> ''response_time_hours''"
    by (simp add: ts_cols_def)
  have n: "nrows demo_orders = 2" by (simp add: demo_orders_def)
  from filter_noop_without_ticket_id [OF h, of demo_pandas "''order_id''"] c h n
  show ?thesis by blast
qed

subsection \<open>Gold flow\<close>

lemma set_uniq: "set (uniq xs) = set xs"
  by (simp add: uniq_def)

lemma distinct_uniq: "distinct (uniq xs)"
  by (simp add: uniq_def)

lemma set_insert_cell: "set (insert_cell x ys) = insert x (set ys)"
  by (induction ys) auto

lemma distinct_insert_cell: "distinct (insert_cell x ys) = (x \<notin> set ys \<and> distinct ys)"
  by (induction ys) (auto simp: set_insert_cell)

lemma set_sort_cells: "set (sort_cells xs) = set xs"
  unfolding sort_cells_def by (induction xs) (simp_all add: set_insert_cell)

lemma distinct_sort_cells: "distinct xs \<Longrightarrow> distinct (sort_cells xs)"
  unfolding sort_cells_def
proof (induction xs)
  case Nil
  then show ?case by simp
next
  case (Cons x xs)
  have "set (foldr insert_cell xs []) = set xs"
    using set_sort_cells [of xs] by (simp add: sort_cells_def)
  with Cons show ?case by (simp add: distinct_insert_cell)
qed

lemma sum_counts:
  assumes "distinct ks" and "set ks = set xs"
  shows "sum_list (map (\<lambda>k. length (filter (\<lambda>c. c = k) xs)) ks) = length xs"
proof -
  have c: "length (filter (\<lambda>c. c = k) xs) = count_list xs k" for k
    by (induction xs) auto
  have "sum_list (map (count_list xs) ks) = sum (count_list xs) (set ks)"
    using assms(1) by (simp add: sum_list_distinct_conv_sum_set)
  also have "\<dots> = length xs" using assms(2) by (simp add: sum_count_set)
  finally show ?thesis by (simp add: c)
qed

lemma sentiment_label_cases:
  "sentiment_label L v = ''positive'' \<or> sentiment_label L v = ''neutral'' \<or>
   sentiment_label L v = ''negative''"
  by (simp add: sentiment_label_def split: option.splits)

lemma groupby_size_no_null:
  assumes "list_all (\<lambda>c. \<not> is_null c) ks"
  shows "groupby_size False ks = map (\<lambda>k. (k, length (filter (\<lambda>c. c = k) ks))) (sort_cells (uniq ks))"
proof -
  from assms have f: "filter (\<lambda>c. \<not> is_null c) ks = ks" by (simp add: list_all_iff)
  from assms have e: "\<not> list_ex is_null ks" by (simp add: list_all_iff list_ex_iff)
  have "k \<in> set (sort_cells (uniq ks)) \<Longrightarrow> same_key k = (\<lambda>c. c = k)" for k
    using assms by (auto simp: set_sort_cells set_uniq same_key_def list_all_iff)
  then show ?thesis by (simp add: groupby_size_def group_keys_def f e)
qed

lemma length_sentiment_score_val:
  "wf_frame df \<Longrightarrow> length (sentiment_score_val L df) = nrows df"
  by (simp add: sentiment_score_val_def wf_get_col)

lemma sentiment_label_column:
  "get_col ''sentiment_label'' (with_sentiment L df) =
     map (\<lambda>v. Str (sentiment_label L (Float v))) (sentiment_score_val L df)"
  by (simp add: with_sentiment_def Let_def get_col_set_col_same comp_def)

lemma tickets_by_sentiment_eq:
  "tickets_by_sentiment (gold_transform L df) =
     groupby_size False (get_col ''sentiment_label'' (with_sentiment L df))"
  by (simp add: gold_transform_def Let_def)

text \<open>
  Claim C4. The label of a row is computed from its numeric score: a score of at least
  0.5 gives \<^verbatim>\<open>positive\<close>, a score of at most -0.5 gives \<^verbatim>\<open>negative\<close>, and
  every other case gives \<^verbatim>\<open>neutral\<close>: a score strictly between, 0.0, a missing score
  (\<^verbatim>\<open>None\<close> or \<^verbatim>\<open>nan\<close>) and a score that does not parse. The two thresholds
  belong to the labelled side. In the flow the label column is this function of the score
  column, on which a missing or unparseable value is \<^verbatim>\<open>nan\<close>.
\<close>

theorem sentiment_label_thresholds:
  "(1 / 2 \<le> x \<longrightarrow> sentiment_label L (Float (Fin x)) = ''positive'') \<and>
   (x \<le> - (1 / 2) \<longrightarrow> sentiment_label L (Float (Fin x)) = ''negative'') \<and>
   (- (1 / 2) < x \<and> x < 1 / 2 \<longrightarrow> sentiment_label L (Float (Fin x)) = ''neutral'') \<and>
   sentiment_label L (Float (Fin (1 / 2))) = ''positive'' \<and>
   sentiment_label L (Float (Fin (- (1 / 2)))) = ''negative'' \<and>
   sentiment_label L (Float (Fin 0)) = ''neutral'' \<and>
   sentiment_label L (Float NaN) = ''neutral'' \<and>
   sentiment_label L Null = ''neutral'' \<and>
   (float_of_str L s = None \<longrightarrow> sentiment_label L (Str s) = ''neutral'') \<and>
   to_numeric L Null = NaN \<and>
   (to_num L s = NaN \<longrightarrow> to_numeric L (Str s) = NaN) \<and>
   get_col ''sentiment_label'' (with_sentiment L df) =
     map (\<lambda>v. Str (sentiment_label L (Float v))) (sentiment_score_val L df) \<and>
   (has_col ''sentiment_score'' df \<longrightarrow>
      sentiment_score_val L df = map (to_numeric L) (get_col ''sentiment_score'' df)) \<and>
   (\<not> has_col ''sentiment_score'' df \<and> \<not> has_col ''sentiment'' df \<longrightarrow>
      sentiment_score_val L df = replicate (nrows df) NaN)"
  by (simp add: sentiment_label_def sentiment_label_column sentiment_score_val_def)

theorem sentiment_label_thresholds_witness:
  "sentiment_label demo_pandas (Float (Fin (3 / 4))) = ''positive'' \<and>
   sentiment_label demo_pandas (Float (Fin (- (3 / 4)))) = ''negative'' \<and>
   sentiment_label demo_pandas (Float (Fin (1 / 4))) = ''neutral'' \<and>
   float_of_str demo_pandas ''n/a'' = None \<and>
   sentiment_label demo_pandas (Str ''n/a'') = ''neutral'' \<and>
   has_col ''sentiment_score'' demo_silver \<and>
   sentiment_score_val demo_pandas demo_silver =
     map (to_numeric demo_pandas) (get_col ''sentiment_score'' demo_silver)"
proof -
  have 1: "(1 / 2 :: rat) \<le> 3 / 4" by simp
  have 2: "- (3 / 4) \<le> (- (1 / 2) :: rat)" by simp
  have 3: "(- (1 / 2) :: rat) < 1 / 4 \<and> (1 / 4 :: rat) < 1 / 2" by simp
  have 4: "float_of_str demo_pandas ''n/a'' = None" by (simp add: demo_pandas_def)
  have 5: "has_col ''sentiment_score'' demo_silver"
    by (simp add: has_col_def columns_def demo_silver_def)
  from sentiment_label_thresholds [of "3 / 4" demo_pandas "''n/a''" demo_silver]
    sentiment_label_thresholds [of "- (3 / 4)" demo_pandas "''n/a''" demo_silver]
    sentiment_label_thresholds [of "1 / 4" demo_pandas "''n/a''" demo_silver]
    1 2 3 4 5
  show ?thesis by blast
qed

text \<open>
  Claim C10. Sentiment labelling is total: every value gets one of the three labels, the
  label column of a well-formed frame has one label for each row, so the table
  \<^verbatim>\<open>tickets_by_sentiment\<close> has at most three rows, its keys are distinct labels, and
  its counts add up to the number of rows read from the silver file.
\<close>

theorem sentiment_labels_total:
  assumes wf: "wf_frame df"
  shows "sentiment_label L v \<in> {''positive'', ''neutral'', ''negative''} \<and>
    length (get_col ''sentiment_label'' (with_sentiment L df)) = nrows df \<and>
    set (get_col ''sentiment_label'' (with_sentiment L df)) \<subseteq> labels \<and>
    fst ` set (tickets_by_sentiment (gold_transform L df)) \<subseteq> labels \<and>
    distinct (map fst (tickets_by_sentiment (gold_transform L df))) \<and>
    length (tickets_by_sentiment (gold_transform L df)) \<le> 3 \<and>
    sum_list (map snd (tickets_by_sentiment (gold_transform L df))) = nrows df"
proof -
  let ?ls = "get_col ''sentiment_label'' (with_sentiment L df)"
  let ?t = "tickets_by_sentiment (gold_transform L df)"
  let ?ks = "sort_cells (uniq ?ls)"
  have one: "sentiment_label L v \<in> {''positive'', ''neutral'', ''negative''}"
    using sentiment_label_cases [of L v] by auto
  have len: "length ?ls = nrows df"
    using wf by (simp add: sentiment_label_column length_sentiment_score_val)
  have sub: "set ?ls \<subseteq> labels"
    using sentiment_label_cases by (auto simp: sentiment_label_column labels_def)
  then have nn: "list_all (\<lambda>c. \<not> is_null c) ?ls"
    by (auto simp: list_all_iff labels_def)
  have t: "?t = map (\<lambda>k. (k, length (filter (\<lambda>c. c = k) ?ls))) ?ks"
    by (simp add: tickets_by_sentiment_eq groupby_size_no_null [OF nn])
  have keys: "map fst ?t = ?ks" by (simp add: t comp_def)
  have sk: "set ?ks = set ?ls" by (simp add: set_sort_cells set_uniq)
  have dk: "distinct ?ks" by (simp add: distinct_sort_cells distinct_uniq)
  have "card labels \<le> 3" by (simp add: labels_def card_insert_if)
  moreover have "card (set ?ks) \<le> card labels"
    using sub sk by (intro card_mono) (simp_all add: labels_def)
  moreover have "length ?ks = card (set ?ks)" using dk by (simp add: distinct_card)
  ultimately have l3: "length ?t \<le> 3" using keys by (metis le_trans length_map)
  have "map snd ?t = map (\<lambda>k. length (filter (\<lambda>c. c = k) ?ls)) ?ks" by (simp add: t comp_def)
  then have total: "sum_list (map snd ?t) = nrows df"
    using sum_counts [OF dk sk] len by simp
  have "fst ` set ?t = set (map fst ?t)" by simp
  with keys sk sub have fs: "fst ` set ?t \<subseteq> labels" by (simp del: set_map)
  show ?thesis using one len sub fs dk keys l3 total by simp
qed

theorem sentiment_labels_total_witness:
  "wf_frame demo_silver \<and>
   length (tickets_by_sentiment (gold_transform demo_pandas demo_silver)) \<le> 3 \<and>
   sum_list (map snd (tickets_by_sentiment (gold_transform demo_pandas demo_silver))) = nrows demo_silver \<and>
   nrows demo_silver = 4"
proof -
  have wf: "wf_frame demo_silver" by (simp add: wf_frame_def demo_silver_def)
  have n: "nrows demo_silver = 4" by (simp add: demo_silver_def)
  from sentiment_labels_total [OF wf, of demo_pandas] wf n show ?thesis by blast
qed

text \<open>
  Claim C7. The summary table is the concatenation of the four aggregate tables in the
  order \<^verbatim>\<open>tickets_per_agent\<close>, \<^verbatim>\<open>tickets_by_status\<close>,
  \<^verbatim>\<open>tickets_by_sentiment\<close>, \<^verbatim>\<open>avg_response_time_per_agent\<close>: its length is the
  sum of their lengths, and its (metric, key) pairs are the keys of each table in table
  order under that table's metric name, each row once; a count becomes an integer value.
\<close>

theorem summary_is_concatenation:
  "gold_summary (gold_transform L df) =
     map (count_row ''tickets_per_agent'') (tickets_per_agent (gold_transform L df)) @
     map (count_row ''tickets_by_status'') (tickets_by_status (gold_transform L df)) @
     map (count_row ''tickets_by_sentiment'') (tickets_by_sentiment (gold_transform L df)) @
     map (mean_row ''avg_response_time_per_agent'') (avg_response_time_per_agent (gold_transform L df)) \<and>
   length (gold_summary (gold_transform L df)) =
     length (tickets_per_agent (gold_transform L df)) + length (tickets_by_status (gold_transform L df)) +
     length (tickets_by_sentiment (gold_transform L df)) +
     length (avg_response_time_per_agent (gold_transform L df)) \<and>
   map (\<lambda>(metric, key, v). (metric, key)) (gold_summary (gold_transform L df)) =
     map (\<lambda>r. (''tickets_per_agent'', fst r)) (tickets_per_agent (gold_transform L df)) @
     map (\<lambda>r. (''tickets_by_status'', fst r)) (tickets_by_status (gold_transform L df)) @
     map (\<lambda>r. (''tickets_by_sentiment'', fst r)) (tickets_by_sentiment (gold_transform L df)) @
     map (\<lambda>r. (''avg_response_time_per_agent'', fst r)) (avg_response_time_per_agent (gold_transform L df)) \<and>
   map (\<lambda>(metric, key, v). v) (map (count_row m) tbl) = map (\<lambda>r. Integer (int (snd r))) tbl \<and>
   map (\<lambda>(metric, key, v). (metric, key)) (summary_rows tpa tbs tbsent avg_resp) =
     map (\<lambda>r. (''tickets_per_agent'', fst r)) tpa @ map (\<lambda>r. (''tickets_by_status'', fst r)) tbs @
     map (\<lambda>r. (''tickets_by_sentiment'', fst r)) tbsent @
     map (\<lambda>r. (''avg_response_time_per_agent'', fst r)) avg_resp"
proof -
  have s: "gold_summary (gold_transform L df) =
     summary_rows (tickets_per_agent (gold_transform L df)) (tickets_by_status (gold_transform L df))
       (tickets_by_sentiment (gold_transform L df)) (avg_response_time_per_agent (gold_transform L df))"
    by (simp add: gold_transform_def Let_def)
  have k: "map (\<lambda>(metric, key, v). (metric, key)) (summary_rows a b c d) =
     map (\<lambda>r. (''tickets_per_agent'', fst r)) a @ map (\<lambda>r. (''tickets_by_status'', fst r)) b @
     map (\<lambda>r. (''tickets_by_sentiment'', fst r)) c @
     map (\<lambda>r. (''avg_response_time_per_agent'', fst r)) d" for a b c d
    by (simp add: summary_rows_def count_row_def mean_row_def comp_def)
  have v: "map (\<lambda>(metric, key, v). v) (map (count_row m) tbl) = map (\<lambda>r. Integer (int (snd r))) tbl"
    by (simp add: count_row_def comp_def)
  have l: "length (summary_rows a b c d) = length a + length b + length c + length d" for a b c d
    by (simp add: summary_rows_def)
  show ?thesis
    unfolding s using k v l by (simp add: summary_rows_def)
qed

theorem summary_is_concatenation_witness:
  "length (gold_summary (gold_transform demo_pandas demo_silver)) = 2 + 2 + 3 + 2 \<and>
   map (\<lambda>(metric, key, v). (metric, key)) (gold_summary (gold_transform demo_pandas demo_silver)) =
     [(''tickets_per_agent'', Str ''a1''), (''tickets_per_agent'', Str ''a2''),
      (''tickets_by_status'', Str ''closed''), (''tickets_by_status'', Str ''open''),
      (''tickets_by_sentiment'', Str ''negative''), (''tickets_by_sentiment'', Str ''neutral''),
      (''tickets_by_sentiment'', Str ''positive''),
      (''avg_response_time_per_agent'', Str ''a1''), (''avg_response_time_per_agent'', Str ''a2'')]"
proof -
  have a: "tickets_per_agent (gold_transform demo_pandas demo_silver) = [(Str ''a1'', 1), (Str ''a2'', 2)]"
    by code_simp
  have b: "tickets_by_status (gold_transform demo_pandas demo_silver) = [(Str ''closed'', 1), (Str ''open'', 3)]"
    by code_simp
  have c: "tickets_by_sentiment (gold_transform demo_pandas demo_silver) =
      [(Str ''negative'', 1), (Str ''neutral'', 1), (Str ''positive'', 2)]"
    by code_simp
  have d: "avg_response_time_per_agent (gold_transform demo_pandas demo_silver) =
      [(Str ''a1'', NaN), (Str ''a2'', Fin (7 / 6))]"
    by code_simp
  note th = summary_is_concatenation [of demo_pandas demo_silver]
  note len = th [THEN conjunct2, THEN conjunct1]
  note keys = th [THEN conjunct2, THEN conjunct2, THEN conjunct1]
  show ?thesis by (simp add: len keys a b c d)
qed

text \<open>
  Claim C2, on a group whose response times are all missing. The mean of the group is
  \<^verbatim>\<open>nan\<close>; \<^verbatim>\<open>nan or 0.0\<close> is \<^verbatim>\<open>nan\<close>, since \<^verbatim>\<open>nan\<close> is true, and
  rounding leaves it: the summary row of the group holds \<^verbatim>\<open>nan\<close>.
\<close>

theorem undefined_mean_in_summary:
  "avg_response_time_per_agent (gold_transform L unanswered) = [(Str ''a1'', NaN)] \<and>
   gold_summary (gold_transform L unanswered) =
     [(''tickets_per_agent'', Str ''a1'', Integer 2),
      (''tickets_by_sentiment'', Str ''neutral'', Integer 2),
      (''avg_response_time_per_agent'', Str ''a1'', Float NaN)] \<and>
   or_zero NaN = NaN \<and> round4 NaN = NaN"
  by code_simp

subsection \<open>Bronze flow\<close>

lemma fst_stack: "map fst b = map fst a \<Longrightarrow> map fst (stack a b) = map fst a"
proof -
  assume e: "map fst b = map fst a"
  then have l: "length a = length b" by (metis length_map)
  have "map fst (stack a b) = map fst (map fst (zip a b))"
    by (simp add: stack_def comp_def split_beta)
  also have "\<dots> = map fst a" using l by (simp only: map_fst_zip)
  finally show ?thesis .
qed

lemma fst_foldl_stack:
  "list_all (\<lambda>c. map fst c = map fst a) cs \<Longrightarrow> map fst (foldl stack a cs) = map fst a"
proof (induction cs arbitrary: a)
  case Nil
  then show ?case by simp
next
  case (Cons c cs)
  then have 1: "map fst (stack a c) = map fst a" by (simp add: fst_stack)
  from Cons.prems have "list_all (\<lambda>d. map fst d = map fst (stack a c)) cs" by (simp add: 1)
  then have "map fst (foldl stack (stack a c) cs) = map fst (stack a c)" by (rule Cons.IH)
  with 1 show ?case by simp
qed

lemma all_same_iff:
  assumes "dfs \<noteq> []"
  shows "list_all (\<lambda>d. columns d = columns (hd dfs)) dfs = (\<exists>c. set (map columns dfs) = {c})"
proof
  assume "list_all (\<lambda>d. columns d = columns (hd dfs)) dfs"
  then have "set (map columns dfs) = {columns (hd dfs)}"
    using assms by (cases dfs) (auto simp: list_all_iff)
  then show "\<exists>c. set (map columns dfs) = {c}" by blast
next
  assume "\<exists>c. set (map columns dfs) = {c}"
  then obtain c where c: "set (map columns dfs) = {c}" by blast
  then have "\<And>d. d \<in> set dfs \<Longrightarrow> columns d = c" by auto
  moreover have "hd dfs \<in> set dfs" using assms by simp
  ultimately show "list_all (\<lambda>d. columns d = columns (hd dfs)) dfs" by (simp add: list_all_iff)
qed

lemma concat_frames_same:
  assumes "dfs \<noteq> []" and "set (map columns dfs) = {c}"
  shows "\<exists>r. concat_frames dfs = Inr r \<and> nrows r = sum_list (map nrows dfs) \<and> columns r = c"
proof -
  from assms have a: "list_all (\<lambda>d. columns d = columns (hd dfs)) dfs"
    by (subst all_same_iff) auto
  have "hd dfs \<in> set dfs" using assms by simp
  then have h: "columns (hd dfs) = c" using assms(2) by auto
  from a have "list_all (\<lambda>x. map fst x = map fst (cols (hd dfs))) (map cols (tl dfs))"
    using assms(1) by (cases dfs) (auto simp: list_all_iff columns_def)
  then have "map fst (foldl stack (cols (hd dfs)) (map cols (tl dfs))) = map fst (cols (hd dfs))"
    by (rule fst_foldl_stack)
  with a h assms(1) show ?thesis by (simp add: concat_frames_def columns_def)
qed

lemma concat_frames_differ:
  assumes "dfs \<noteq> []" and "\<not> (\<exists>c. set (map columns dfs) = {c})"
  shows "concat_frames dfs =
    (if \<exists>c\<in>set (map columns dfs). \<not> distinct c then Inl InvalidIndexError
     else Inr \<lparr>nrows = sum_list (map nrows dfs),
               cols = map (\<lambda>n. (n, concat (map (\<lambda>d. column_or_null d n) dfs)))
                        (uniq (concat (map columns dfs)))\<rparr>)"
proof -
  from assms have a: "\<not> list_all (\<lambda>d. columns d = columns (hd dfs)) dfs"
    by (subst all_same_iff) auto
  with assms(1) show ?thesis by (auto simp: concat_frames_def list_ex_iff)
qed

lemma concat_similar:
  assumes ne: "dfs \<noteq> []" "dfs' \<noteq> []"
    and s: "set (map columns dfs) = set (map columns dfs')"
    and n: "sum_list (map nrows dfs) = sum_list (map nrows dfs')"
  shows "rel_sum (=) similar (concat_frames dfs) (concat_frames dfs')"
proof (cases "\<exists>c. set (map columns dfs) = {c}")
  case True
  then obtain c where c: "set (map columns dfs) = {c}" by blast
  from concat_frames_same [OF ne(1) c] obtain r where
    r: "concat_frames dfs = Inr r" "nrows r = sum_list (map nrows dfs)" "columns r = c" by blast
  from c s have "set (map columns dfs') = {c}" by simp
  from concat_frames_same [OF ne(2) this] obtain r' where
    r': "concat_frames dfs' = Inr r'" "nrows r' = sum_list (map nrows dfs')" "columns r' = c" by blast
  show ?thesis using r r' n by (simp add: similar_def)
next
  case False
  with s have False': "\<not> (\<exists>c. set (map columns dfs') = {c})" by simp
  have u: "set (concat (map columns dfs)) = set (concat (map columns dfs'))"
    using s by (metis set_concat)
  show ?thesis
    unfolding concat_frames_differ [OF ne(1) False] concat_frames_differ [OF ne(2) False']
    using s n u by (simp add: similar_def columns_def comp_def uniq_def)
qed

lemma column_set_pair:
  "column_set (concat_frames [X, J]) =
     (if columns X = columns J then Inr (set (columns X))
      else if \<not> distinct (columns X) \<or> \<not> distinct (columns J) then Inl InvalidIndexError
      else Inr (set (columns X) \<union> set (columns J)))"
proof (cases "columns X = columns J")
  case True
  then have "set (map columns [X, J]) = {columns X}" by simp
  from concat_frames_same [OF _ this] obtain r where
    "concat_frames [X, J] = Inr r" "columns r = columns X" by auto
  with True show ?thesis by (simp add: column_set_def)
next
  case False
  then have "\<not> (\<exists>c. set (map columns [X, J]) = {c})"
    by (auto simp: doubleton_eq_iff)
  from concat_frames_differ [OF _ this] False show ?thesis
    by (auto simp: column_set_def columns_def comp_def uniq_def)
qed

lemma is_empty_similar: "similar X Y \<Longrightarrow> is_empty X = is_empty Y"
proof -
  assume s: "similar X Y"
  then have "set (columns X) = set (columns Y)" by (simp add: similar_def)
  then have "(columns X = []) = (columns Y = [])" by (metis set_empty)
  then have "(cols X = []) = (cols Y = [])" by (simp add: columns_def)
  moreover have "nrows X = nrows Y" using s by (simp add: similar_def)
  ultimately show ?thesis by (simp add: is_empty_def)
qed

lemma union_similar:
  assumes "similar X Y"
  shows "column_set (union_frames X J) = column_set (union_frames Y J)"
proof -
  have e: "is_empty X = is_empty Y" using assms by (rule is_empty_similar)
  have c: "column_set (concat_frames [X, J]) = column_set (concat_frames [Y, J])"
    unfolding column_set_pair using assms by (auto simp: similar_def)
  have s: "column_set (Inr X) = column_set (Inr Y)"
    using assms by (simp add: column_set_def similar_def)
  show ?thesis using e c s by (simp add: union_frames_def)
qed

lemma columns_normalize: "columns (normalize_df_columns df) = map to_snake (columns df)"
  by (simp add: normalize_df_columns_def columns_def comp_def split_beta)

lemma column_set_normalized:
  "column_set r = column_set r' \<Longrightarrow>
   column_set (case r of Inl e \<Rightarrow> Inl e | Inr c \<Rightarrow> Inr (normalize_df_columns c)) =
   column_set (case r' of Inl e \<Rightarrow> Inl e | Inr c \<Rightarrow> Inr (normalize_df_columns c))"
  by (auto simp: column_set_def columns_normalize split: sum.splits)

lemma bronze_combine_reorder:
  assumes e: "(dfs = []) = (dfs' = [])"
    and s: "set (map columns dfs) = set (map columns dfs')"
    and n: "sum_list (map nrows dfs) = sum_list (map nrows dfs')"
  shows "column_set (bronze_combine dfs J) = column_set (bronze_combine dfs' J)"
proof (cases "dfs = []")
  case True
  with e show ?thesis by simp
next
  case False
  with e have ne: "dfs \<noteq> []" "dfs' \<noteq> []" by auto
  from concat_similar [OF ne s n]
  have r: "rel_sum (=) similar (concat_frames dfs) (concat_frames dfs')" .
  show ?thesis
  proof (cases "concat_frames dfs")
    case (Inl a)
    with r obtain b where "concat_frames dfs' = Inl b" "a = b"
      by (cases "concat_frames dfs'") auto
    with Inl ne show ?thesis by (simp add: bronze_combine_def)
  next
    case (Inr X)
    with r obtain Y where Y: "concat_frames dfs' = Inr Y" "similar X Y"
      by (cases "concat_frames dfs'") auto
    have "column_set (union_frames X J) = column_set (union_frames Y J)"
      using Y(2) by (rule union_similar)
    then show ?thesis
      using Inr Y(1) ne column_set_normalized [of "union_frames X J" "union_frames Y J"]
      by (simp add: bronze_combine_def)
  qed
qed

lemma bronze_table_no_src:
  assumes "bronze_table files jf = Inr out"
  shows "\<not> has_col ''_src'' out"
proof -
  from assms obtain c where "out = normalize_df_columns c"
    by (auto simp: bronze_table_def bronze_combine_def split: sum.splits)
  then have c: "columns out = map to_snake (columns c)" by (simp add: columns_normalize)
  have ne: "to_snake n \<noteq> ''_src''" for n
    using to_snake_hd [of n] by auto
  show ?thesis
  proof
    assume "has_col ''_src'' out"
    then obtain n where "to_snake n = ''_src''" unfolding has_col_def c by auto
    with ne show False by blast
  qed
qed

text \<open>
  Claim C9. The bronze union is commutative in its columns: for any two tables A and B,
  concatenating A then B gives the same set of column labels as B then A (or the same
  exception), this set being the union of both when neither repeats a label; and the
  bronze table built from the tables A, B and a log has the same set of columns as the
  one built from B, A and that log.
\<close>

theorem union_column_commutative:
  "column_set (concat_frames [A, B]) = column_set (concat_frames [B, A]) \<and>
   column_set (bronze_combine [A, B] J) = column_set (bronze_combine [B, A] J) \<and>
   (distinct (columns A) \<and> distinct (columns B) \<longrightarrow>
      column_set (concat_frames [A, B]) = Inr (set (columns A) \<union> set (columns B)))"
proof -
  have 1: "column_set (concat_frames [A, B]) = column_set (concat_frames [B, A])"
    unfolding column_set_pair by auto
  have 2: "column_set (bronze_combine [A, B] J) = column_set (bronze_combine [B, A] J)"
    by (rule bronze_combine_reorder) (auto simp: insert_commute)
  have 3: "column_set (concat_frames [A, B]) = Inr (set (columns A) \<union> set (columns B))"
    if "distinct (columns A) \<and> distinct (columns B)"
    unfolding column_set_pair using that by auto
  from 1 2 3 show ?thesis by blast
qed

theorem union_column_commutative_witness:
  "distinct (columns demo_customers) \<and> distinct (columns demo_orders) \<and>
   column_set (concat_frames [demo_customers, demo_orders]) =
     column_set (concat_frames [demo_orders, demo_customers]) \<and>
   column_set (concat_frames [demo_customers, demo_orders]) =
     Inr (set (columns demo_customers) \<union> set (columns demo_orders)) \<and>
   column_set (bronze_combine [demo_customers, demo_orders] demo_log) =
     column_set (bronze_combine [demo_orders, demo_customers] demo_log)"
proof -
  have d: "distinct (columns demo_customers) \<and> distinct (columns demo_orders)"
    by (simp add: columns_def demo_customers_def demo_orders_def)
  from union_column_commutative [of demo_customers demo_orders demo_log] d
  show ?thesis by blast
qed

text \<open>
  Claim C1, on a run that reads \<^verbatim>\<open>customers.csv\<close> alone, one row with the column
  \<^verbatim>\<open>id\<close>. The table is tagged with a column \<^verbatim>\<open>_src\<close>; the normalization of
  the labels after the union strips the leading underscore, so the bronze table carries
  the tag under the label \<^verbatim>\<open>src\<close>.
\<close>

theorem provenance_column_renamed:
  "bronze_table customers_only None =
     Inr \<lparr>nrows = 1, cols = [(''id'', [Str ''1'']), (''src'', [Str ''customers''])]\<rparr> \<and>
   to_snake ''_src'' = ''src'' \<and>
   columns \<lparr>nrows = 1, cols = [(''id'', [Str ''1'']), (''src'', [Str ''customers''])]\<rparr> =
     [''id'', ''src'']"
  by code_simp

text \<open>
  Claim C3, on a store without any file. The bronze flow writes a bronze file holding the
  empty frame, without rows or columns. The silver flow finds that file, reads it, and
  the reader raises \<^verbatim>\<open>EmptyDataError\<close>, which nothing catches: the run ends in
  that exception before the gold flow is called.
\<close>

theorem no_input_files_run:
  "bronze_flow no_files =
     Inr (no_files\<lparr>bronze_file := Some empty_frame\<rparr>, Some ''data/bronze/bronze.csv'') \<and>
   nrows empty_frame = 0 \<and> cols empty_frame = [] \<and>
   silver_flow L (no_files\<lparr>bronze_file := Some empty_frame\<rparr>) = Inl EmptyDataError \<and>
   run_all L no_files = Inl EmptyDataError"
proof -
  have t: "bronze_table (\<lambda>fname. None) None = Inr empty_frame"
    by (simp add: bronze_table_def csv_names_def bronze_combine_def load_json_def
        union_frames_def is_empty_def empty_frame_def normalize_df_columns_def)
  have b: "bronze_flow no_files =
     Inr (no_files\<lparr>bronze_file := Some empty_frame\<rparr>, Some ''data/bronze/bronze.csv'')"
    by (simp add: bronze_flow_def no_files_def t)
  have s: "silver_flow L (no_files\<lparr>bronze_file := Some empty_frame\<rparr>) = Inl EmptyDataError"
    by (simp add: silver_flow_def read_csv_def empty_frame_def)
  have r: "run_all L no_files = Inl EmptyDataError"
    by (simp add: run_all_def b s)
  show ?thesis using b s r by (simp add: empty_frame_def)
qed

end
